theory Spec2Isabelle
  imports Complex_Main "HOL-Library.Multiset" "HOL-Library.Log_Nat"
begin

section \<open>JavaScript numbers\<close>

text \<open>
  A JavaScript \<^verbatim>\<open>number\<close> is an IEEE 754 double: a finite value, one of the two
  infinities, or NaN. The sign of zero is not modelled. \<^verbatim>\<open>bigint\<close> is \<open>int\<close>.
  The price arithmetic below rounds every result to a double as the language does; the
  statistics of the congestion estimate are computed exactly.
\<close>

datatype number = Num real | PosInfinity | NegInfinity | NaN

text \<open>\<^verbatim>\<open>a / b\<close> on two finite numbers: a zero divisor gives NaN or a signed infinity.\<close>

definition js_div :: "real \<Rightarrow> real \<Rightarrow> number" where
  "js_div a b =
     (if b \<noteq> 0 then Num (a / b)
      else if a = 0 then NaN
      else if 0 < a then PosInfinity
      else NegInfinity)"

text \<open>\<^verbatim>\<open>x * c\<close> for a positive finite constant \<open>c\<close>.\<close>

fun js_times :: "number \<Rightarrow> real \<Rightarrow> number" where
  "js_times (Num x) c = Num (x * c)"
| "js_times PosInfinity c = PosInfinity"
| "js_times NegInfinity c = NegInfinity"
| "js_times NaN c = NaN"

text \<open>\<^verbatim>\<open>Math.min(x, c)\<close>: NaN if an argument is NaN.\<close>

fun js_min :: "number \<Rightarrow> real \<Rightarrow> number" where
  "js_min (Num x) c = Num (min x c)"
| "js_min PosInfinity c = Num c"
| "js_min NegInfinity c = NegInfinity"
| "js_min NaN c = NaN"

text \<open>\<^verbatim>\<open>x > c\<close> and \<^verbatim>\<open>x < c\<close>: every comparison with NaN is false.\<close>

fun js_gt :: "number \<Rightarrow> real \<Rightarrow> bool" where
  "js_gt (Num x) c = (c < x)"
| "js_gt PosInfinity c = True"
| "js_gt NegInfinity c = False"
| "js_gt NaN c = False"

fun js_lt :: "number \<Rightarrow> real \<Rightarrow> bool" where
  "js_lt (Num x) c = (x < c)"
| "js_lt PosInfinity c = False"
| "js_lt NegInfinity c = True"
| "js_lt NaN c = False"

text \<open>\<^verbatim>\<open>BigInt(x)\<close> of a finite number: a RangeError (\<open>None\<close>) unless \<open>x\<close> is an integer.\<close>

definition toBigInt :: "real \<Rightarrow> int option" where
  "toBigInt x = (if real_of_int \<lfloor>x\<rfloor> = x then Some \<lfloor>x\<rfloor> else None)"

subsection \<open>Rounding to a double\<close>

text \<open>Rounding to the nearest integer, a tie to the even one.\<close>

definition round_half_even :: "real \<Rightarrow> int" where
  "round_half_even y =
     (let f = \<lfloor>y\<rfloor>; d = y - real_of_int f
      in if d < 1 / 2 then f else if 1 / 2 < d then f + 1 else if even f then f else f + 1)"

text \<open>
  The binary exponent of a value other than zero, the \<open>e\<close> with
  \<open>2\<^sup>e \<le> \<bar>x\<bar> < 2\<^sup>e\<^sup>+\<^sup>1\<close>, from the bit length of the integer part or of the reciprocal.
\<close>

definition exponent :: "real \<Rightarrow> int" where
  "exponent x =
     (if 1 \<le> \<bar>x\<bar> then bitlen \<lfloor>\<bar>x\<bar>\<rfloor> - 1 else - bitlen (\<lceil>1 / \<bar>x\<bar>\<rceil> - 1))"

text \<open>
  The spacing of the doubles around \<open>x\<close>: 52 bits below the exponent, and \<open>2\<^sup>-\<^sup>1\<^sup>0\<^sup>7\<^sup>4\<close> in
  the subnormal range.
\<close>

definition ulp :: "real \<Rightarrow> real" where
  "ulp x = 2 powi (max (exponent x) (- 1022) - 52)"

definition round_magnitude :: "real \<Rightarrow> real" where
  "round_magnitude x = real_of_int (round_half_even (x / ulp x)) * ulp x"

text \<open>
  The double nearest to an exact value, ties to the even significand; an infinity when the
  rounded magnitude reaches \<open>2\<^sup>1\<^sup>0\<^sup>2\<^sup>4\<close>. A numeric literal and a configured number denote
  the double nearest to the decimal written.
\<close>

definition to_double :: "real \<Rightarrow> number" where
  "to_double x =
     (if x = 0 then Num 0
      else if 2 ^ 1024 \<le> round_magnitude \<bar>x\<bar> then
        (if 0 < x then PosInfinity else NegInfinity)
      else Num (sgn x * round_magnitude \<bar>x\<bar>))"

text \<open>\<^verbatim>\<open>Number(p)\<close> of a \<^verbatim>\<open>bigint\<close>.\<close>

definition Number :: "int \<Rightarrow> number" where
  "Number p = to_double (real_of_int p)"

text \<open>\<^verbatim>\<open>a * b\<close> on doubles: the exact product rounded; zero times an infinity is NaN.\<close>

fun js_mul :: "number \<Rightarrow> number \<Rightarrow> number" where
  "js_mul (Num a) (Num b) = to_double (a * b)"
| "js_mul NaN y = NaN"
| "js_mul x NaN = NaN"
| "js_mul (Num a) PosInfinity =
     (if a = 0 then NaN else if 0 < a then PosInfinity else NegInfinity)"
| "js_mul (Num a) NegInfinity =
     (if a = 0 then NaN else if 0 < a then NegInfinity else PosInfinity)"
| "js_mul PosInfinity (Num b) =
     (if b = 0 then NaN else if 0 < b then PosInfinity else NegInfinity)"
| "js_mul NegInfinity (Num b) =
     (if b = 0 then NaN else if 0 < b then NegInfinity else PosInfinity)"
| "js_mul PosInfinity PosInfinity = PosInfinity"
| "js_mul PosInfinity NegInfinity = NegInfinity"
| "js_mul NegInfinity PosInfinity = NegInfinity"
| "js_mul NegInfinity NegInfinity = PosInfinity"

text \<open>\<^verbatim>\<open>Math.floor(x)\<close>: the floor of a double is a double.\<close>

fun js_floor :: "number \<Rightarrow> number" where
  "js_floor (Num x) = Num (real_of_int \<lfloor>x\<rfloor>)"
| "js_floor PosInfinity = PosInfinity"
| "js_floor NegInfinity = NegInfinity"
| "js_floor NaN = NaN"

text \<open>\<^verbatim>\<open>BigInt(x)\<close> of a number: a RangeError (\<open>None\<close>) for an infinity and for NaN as well.\<close>

fun BigInt :: "number \<Rightarrow> int option" where
  "BigInt (Num x) = toBigInt x"
| "BigInt PosInfinity = None"
| "BigInt NegInfinity = None"
| "BigInt NaN = None"

text \<open>\<^verbatim>\<open>BigInt(Math.floor(Number(p) * m))\<close>, \<open>None\<close> when the conversion throws.\<close>

definition scale_price :: "int \<Rightarrow> number \<Rightarrow> int option" where
  "scale_price p m = BigInt (js_floor (js_mul (Number p) m))"

text \<open>\<^verbatim>\<open>BigInt(x * 1e9)\<close> for a configured number of gwei.\<close>

definition gwei_limit :: "real \<Rightarrow> int option" where
  "gwei_limit x = BigInt (js_mul (to_double x) (to_double 1000000000))"

section \<open>GasOptimizer\<close>

text \<open>The fields of \<^verbatim>\<open>GasOptimizationConfig\<close> that the fee recommendations read.\<close>

record gas_optimization_config =
  enabled :: bool
  gasPriceBuffer :: real
  priorityFeeBuffer :: real
  maxGasPrice :: real
  minGasPrice :: real
  gasPriceHistorySize :: nat

text \<open>\<^verbatim>\<open>loadGasConfig\<close> with every key at its default.\<close>

definition default_gas_config :: gas_optimization_config where
  "default_gas_config =
     \<lparr>enabled = True, gasPriceBuffer = 1.1, priorityFeeBuffer = 1.2,
      maxGasPrice = 20, minGasPrice = 1, gasPriceHistorySize = 100\<rparr>"

text \<open>
  The string union \<^verbatim>\<open>'LOW' | 'MEDIUM' | 'HIGH' | 'CRITICAL'\<close>, used for the fee
  recommendation of a sample and for the priority of a queued batch.
\<close>

datatype level = LOW | MEDIUM | HIGH | CRITICAL

text \<open>\<^verbatim>\<open>GasPriceData\<close>, one sample of the history.\<close>

record gas_price_data =
  gpd_gasPrice :: int
  gpd_priorityFee :: int
  gpd_maxFeePerGas :: int
  gpd_networkCongestion :: number
  gpd_recommendation :: level
  gpd_timestamp :: int

text \<open>
  What \<^verbatim>\<open>provider.getFeeData()\<close> resolves to; a field is \<open>None\<close> when it is \<^verbatim>\<open>null\<close>.
  The call itself may throw, which the callers see as \<open>None\<close> of type \<open>fee_data option\<close>.
\<close>

record fee_data =
  fd_gasPrice :: "int option"
  fd_maxPriorityFeePerGas :: "int option"
  fd_maxFeePerGas :: "int option"

text \<open>\<^verbatim>\<open>x || BigInt(0)\<close>: \<^verbatim>\<open>null\<close> is replaced by zero (and \<^verbatim>\<open>0n\<close>, being falsy, too).\<close>

definition or_zero :: "int option \<Rightarrow> int" where
  "or_zero x = (case x of None \<Rightarrow> 0 | Some p \<Rightarrow> p)"

text \<open>\<^verbatim>\<open>xs.slice(-n)\<close> for \<open>n > 0\<close>: the last \<open>n\<close> elements, all of them if there are fewer.\<close>

definition slice_last :: "nat \<Rightarrow> 'a list \<Rightarrow> 'a list" where
  "slice_last n xs = drop (length xs - n) xs"

text \<open>
  \<^verbatim>\<open>getNetworkCongestion\<close>: 0.5 with fewer than ten samples, otherwise twice the coefficient
  of variation of the last ten gas prices, capped at 1 by \<^verbatim>\<open>Math.min\<close>. The two
  \<^verbatim>\<open>reduce\<close> calls are the two \<open>foldl\<close>. Nothing in the body throws.
\<close>

definition getNetworkCongestion :: "gas_price_data list \<Rightarrow> number" where
  "getNetworkCongestion gasPriceHistory =
     (if length gasPriceHistory < 10 then Num 0.5
      else
        let recentPrices = slice_last 10 gasPriceHistory;
            avgPrice = foldl (\<lambda>sum d. sum + real_of_int (gpd_gasPrice d)) 0 recentPrices
                         / real (length recentPrices);
            variance = foldl (\<lambda>sum d. sum + (real_of_int (gpd_gasPrice d) - avgPrice)\<^sup>2) 0
                         recentPrices / real (length recentPrices);
            volatility = js_div (sqrt variance) avgPrice
        in js_min (js_times volatility 2) 1.0)"

text \<open>
  \<^verbatim>\<open>calculateOptimalGasPrice\<close>: congestion multiplier, buffer, then the floor at
  \<^verbatim>\<open>minGasPrice\<close> gwei. There is no comparison with \<^verbatim>\<open>maxGasPrice\<close>. When one of
  the three conversions to \<^verbatim>\<open>bigint\<close> throws, the handler returns the price it was
  given.
\<close>

definition calculateOptimalGasPrice ::
  "gas_optimization_config \<Rightarrow> gas_price_data list \<Rightarrow> int \<Rightarrow> int" where
  "calculateOptimalGasPrice cfg gasPriceHistory currentGasPrice =
     (let congestionLevel = getNetworkCongestion gasPriceHistory;
          multiplier = (if js_gt congestionLevel 0.8 then to_double 1.5
                        else if js_gt congestionLevel 0.6 then to_double 1.2
                        else if js_lt congestionLevel 0.3 then to_double 0.9
                        else to_double 1.0)
      in case scale_price currentGasPrice multiplier of
           None \<Rightarrow> currentGasPrice
         | Some optimalGasPrice \<Rightarrow>
             (case scale_price optimalGasPrice (to_double (gasPriceBuffer cfg)) of
                None \<Rightarrow> currentGasPrice
              | Some bufferedGasPrice \<Rightarrow>
                  (case gwei_limit (minGasPrice cfg) of
                     None \<Rightarrow> currentGasPrice
                   | Some minGasPrice' \<Rightarrow>
                       (if bufferedGasPrice > minGasPrice' then bufferedGasPrice
                        else minGasPrice'))))"

text \<open>
  \<^verbatim>\<open>getOptimalGasPrice\<close>: the network price unchanged when optimisation is disabled,
  5 gwei when the fee read throws.
\<close>

definition getOptimalGasPrice ::
  "gas_optimization_config \<Rightarrow> gas_price_data list \<Rightarrow> fee_data option \<Rightarrow> int" where
  "getOptimalGasPrice cfg gasPriceHistory feeData =
     (case feeData of
        None \<Rightarrow> 5000000000
      | Some fd \<Rightarrow>
          (let currentGasPrice = or_zero (fd_gasPrice fd)
           in if \<not> enabled cfg then currentGasPrice
              else calculateOptimalGasPrice cfg gasPriceHistory currentGasPrice))"

datatype urgency = LAUNCH | BUY

text \<open>
  \<^verbatim>\<open>getUrgentGasPrice\<close>: the base recommendation times the urgency multiplier times the
  extra congestion multiplier, clamped to both limits; 10 gwei when a conversion to
  \<^verbatim>\<open>bigint\<close> throws.
\<close>

definition getUrgentGasPrice ::
  "gas_optimization_config \<Rightarrow> gas_price_data list \<Rightarrow> fee_data option \<Rightarrow> urgency \<Rightarrow> int" where
  "getUrgentGasPrice cfg gasPriceHistory feeData type =
     (let baseGasPrice = getOptimalGasPrice cfg gasPriceHistory feeData;
          networkCongestion = getNetworkCongestion gasPriceHistory;
          urgencyMultiplier0 = (if type = LAUNCH then to_double 1.5 else to_double 1.2);
          urgencyMultiplier =
            (if js_gt networkCongestion 0.8 then js_mul urgencyMultiplier0 (to_double 1.3)
             else if js_gt networkCongestion 0.6 then js_mul urgencyMultiplier0 (to_double 1.1)
             else urgencyMultiplier0)
      in case scale_price baseGasPrice urgencyMultiplier of
           None \<Rightarrow> 10000000000
         | Some urgentGasPrice \<Rightarrow>
             (case gwei_limit (maxGasPrice cfg) of
                None \<Rightarrow> 10000000000
              | Some maxGasPrice' \<Rightarrow>
                  (case gwei_limit (minGasPrice cfg) of
                     None \<Rightarrow> 10000000000
                   | Some minGasPrice' \<Rightarrow>
                       (if urgentGasPrice > maxGasPrice' then maxGasPrice'
                        else if urgentGasPrice < minGasPrice' then minGasPrice'
                        else urgentGasPrice))))"

text \<open>A history sample that carries the given gas price.\<close>

definition sample :: "int \<Rightarrow> gas_price_data" where
  "sample p =
     \<lparr>gpd_gasPrice = p, gpd_priorityFee = 0, gpd_maxFeePerGas = 0,
      gpd_networkCongestion = Num 0.5, gpd_recommendation = LOW, gpd_timestamp = 0\<rparr>"

text \<open>A fee reading with the given gas price and nothing else.\<close>

definition fee_reading :: "int \<Rightarrow> fee_data option" where
  "fee_reading p =
     Some \<lparr>fd_gasPrice = Some p, fd_maxPriorityFeePerGas = None, fd_maxFeePerGas = None\<rparr>"

section \<open>BatchProcessor\<close>

subsection \<open>Data\<close>

text \<open>
  The fields of \<^verbatim>\<open>BatchProcessorConfig\<close>. The two sizes are natural numbers: a size
  of zero is representable, negative and fractional sizes are not.
\<close>

record batch_processor_config =
  maxBatchSize :: nat
  batchTimeout :: int
  parallelBatches :: nat
  retryAttempts :: int
  gasPriceIncrement :: real
  priorityFeeIncrement :: real

text \<open>\<^verbatim>\<open>loadBatchConfig\<close> with every key at its default.\<close>

definition default_batch_config :: batch_processor_config where
  "default_batch_config =
     \<lparr>maxBatchSize = 10, batchTimeout = 300000, parallelBatches = 3, retryAttempts = 3,
      gasPriceIncrement = 1.1, priorityFeeIncrement = 1.1\<rparr>"

datatype tx_status = PENDING | SENT | CONFIRMED | FAILED | RETRY

text \<open>
  \<^verbatim>\<open>BatchTransaction\<close>. The fields \<open>tx_to\<close>, \<open>tx_gasLimit\<close> and \<open>tx_value\<close> are those
  of the nested \<^verbatim>\<open>transaction\<close> request that the processor reads; \<open>tx_wallet\<close> is the address
  of the signing wallet, \<open>None\<close> when the object has no wallet.
\<close>

record batch_transaction =
  tx_id :: string
  tx_to :: "string option"
  tx_gasLimit :: "int option"
  tx_value :: "int option"
  tx_wallet :: "string option"
  tx_nonce :: int
  tx_gasPrice :: int
  tx_priorityFee :: int
  tx_maxFeePerGas :: int
  tx_status :: tx_status
  tx_retryCount :: int
  tx_txHash :: "string option"
  tx_blockNumber :: "int option"
  tx_gasUsed :: "int option"

text \<open>
  The provider as the validation sees it: the two reads by address, each \<open>None\<close> when the
  call throws.
\<close>

record provider =
  getBalance :: "string \<Rightarrow> int option"
  getTransactionCount :: "string \<Rightarrow> int option"

text \<open>A mined transaction's receipt, with the hash of the response it belongs to.\<close>

record receipt =
  rc_hash :: string
  rc_status :: int
  rc_blockNumber :: int
  rc_gasUsed :: int
  rc_gasPrice :: int

text \<open>
  What the network does with one \<^verbatim>\<open>wallet.sendTransaction\<close> followed by
  \<^verbatim>\<open>response.wait()\<close>: the send throws, the wait throws after a response with the given
  hash, or a receipt arrives.
\<close>

datatype send_outcome = SendThrows | WaitThrows string | Mined receipt

text \<open>The object \<^verbatim>\<open>executeTransaction\<close> resolves to.\<close>

record exec_result =
  er_success :: bool
  er_txHash :: "string option"
  er_blockNumber :: "int option"
  er_gasUsed :: "int option"
  er_gasPrice :: "int option"

definition exec_failure :: exec_result where
  "exec_failure =
     \<lparr>er_success = False, er_txHash = None, er_blockNumber = None, er_gasUsed = None,
      er_gasPrice = None\<rparr>"

text \<open>The four counters that \<^verbatim>\<open>processTransactionBatch\<close> and its caller accumulate.\<close>

record batch_counts =
  successfulTxs :: nat
  failedTxs :: nat
  totalGasUsed :: int
  totalGasPrice :: int

definition zero_counts :: batch_counts where
  "zero_counts = \<lparr>successfulTxs = 0, failedTxs = 0, totalGasUsed = 0, totalGasPrice = 0\<rparr>"

text \<open>One element of the array \<^verbatim>\<open>Promise.allSettled\<close> resolves to.\<close>

datatype 'a settled = Fulfilled 'a | Rejected

text \<open>
  \<^verbatim>\<open>BatchResult\<close> without \<^verbatim>\<open>batchId\<close> and \<^verbatim>\<open>executionTime\<close>, which are read off the
  clock.
\<close>

record batch_result =
  br_transactions :: "batch_transaction list"
  br_successfulTxs :: nat
  br_failedTxs :: nat
  br_totalGasUsed :: int
  br_totalGasPrice :: int
  br_success :: bool

datatype batch_error = NoValidTransactions

datatype batch_status = QUEUED | PROCESSING | COMPLETED | BATCH_FAILED | TIMEOUT

text \<open>\<^verbatim>\<open>BatchQueue\<close>, one queued batch; the identifier is the pair of clock reading and counter.\<close>

record batch_queue =
  bq_id :: "int \<times> nat"
  bq_transactions :: "batch_transaction list"
  bq_priority :: level
  bq_createdAt :: int
  bq_timeout :: int
  bq_status :: batch_status

text \<open>\<^verbatim>\<open>xs.slice(a, b)\<close> for \<open>0 \<le> a\<close>: the elements at positions \<open>a\<close> to \<open>b - 1\<close> that exist.\<close>

definition slice :: "'a list \<Rightarrow> nat \<Rightarrow> nat \<Rightarrow> 'a list" where
  "slice xs a b = take (b - a) (drop a xs)"

subsection \<open>Validation\<close>

text \<open>
  The body of the loop of \<^verbatim>\<open>validateTransactions\<close> for one transaction: \<open>None\<close> when it is
  skipped (\<^verbatim>\<open>continue\<close>, or an exception of a provider read caught and logged), otherwise
  the transaction with its nonce filled in when it was zero. An empty destination string is
  falsy like a missing one; a missing or zero gas limit counts as 200000.
\<close>

definition validate_transaction :: "provider \<Rightarrow> batch_transaction \<Rightarrow> batch_transaction option" where
  "validate_transaction prov tx =
     (if tx_to tx = None \<or> tx_to tx = Some [] then None
      else
        (case tx_wallet tx of
           None \<Rightarrow> None
         | Some address \<Rightarrow>
             (case getBalance prov address of
                None \<Rightarrow> None
              | Some balance \<Rightarrow>
                  (let gasLimit = (case tx_gasLimit tx of
                                     None \<Rightarrow> 200000
                                   | Some g \<Rightarrow> if g = 0 then 200000 else g);
                       gasCost = tx_gasPrice tx * gasLimit
                   in if balance < gasCost + or_zero (tx_value tx) then None
                      else if tx_nonce tx = 0 then
                        (case getTransactionCount prov address of
                           None \<Rightarrow> None
                         | Some n \<Rightarrow> Some (tx\<lparr>tx_nonce := n\<rparr>))
                      else Some tx))))"

fun validateTransactions :: "provider \<Rightarrow> batch_transaction list \<Rightarrow> batch_transaction list" where
  "validateTransactions prov [] = []"
| "validateTransactions prov (tx # transactions) =
     (case validate_transaction prov tx of
        None \<Rightarrow> validateTransactions prov transactions
      | Some tx' \<Rightarrow> tx' # validateTransactions prov transactions)"

subsection \<open>Executing and retrying one transaction\<close>

text \<open>
  The network is a sequence of outcomes, one for each call of \<^verbatim>\<open>sendTransaction\<close> in the
  order the calls are made; the list \<open>sent\<close> holds the identifiers of the transactions handed to
  \<^verbatim>\<open>sendTransaction\<close> so far, so its length is the number of the next call. Transactions
  are distinct objects and are modelled by value; the callbacks of one batch, which the
  source runs interleaved, are run one after the other in list order.

  \<^verbatim>\<open>executeTransaction\<close> catches every exception and resolves to a failure object then.
\<close>

definition executeTransaction ::
  "(nat \<Rightarrow> send_outcome) \<Rightarrow> string list \<Rightarrow> batch_transaction
     \<Rightarrow> string list \<times> batch_transaction \<times> exec_result" where
  "executeTransaction world sent tx =
     (case world (length sent) of
        SendThrows \<Rightarrow> (sent @ [tx_id tx], tx, exec_failure)
      | WaitThrows h \<Rightarrow>
          (sent @ [tx_id tx], tx\<lparr>tx_status := SENT, tx_txHash := Some h\<rparr>, exec_failure)
      | Mined r \<Rightarrow>
          (sent @ [tx_id tx], tx\<lparr>tx_status := SENT, tx_txHash := Some (rc_hash r)\<rparr>,
           if rc_status r = 1 then
             \<lparr>er_success = True, er_txHash = Some (rc_hash r),
              er_blockNumber = Some (rc_blockNumber r), er_gasUsed = Some (rc_gasUsed r),
              er_gasPrice = Some (rc_gasPrice r)\<rparr>
           else exec_failure))"

text \<open>
  \<^verbatim>\<open>retryTransaction\<close>: count the retry, raise both fees, send once more. The delay is not
  modelled. When the conversion of a raised fee to \<^verbatim>\<open>bigint\<close> throws, the handler sets
  the status FAILED and nothing is sent; what was assigned before stays.
\<close>

definition retryTransaction ::
  "batch_processor_config \<Rightarrow> (nat \<Rightarrow> send_outcome) \<Rightarrow> string list \<Rightarrow> batch_transaction
     \<Rightarrow> string list \<times> batch_transaction" where
  "retryTransaction cfg world sent tx =
     (let tx1 = tx\<lparr>tx_retryCount := tx_retryCount tx + 1, tx_status := RETRY\<rparr>
      in case scale_price (tx_gasPrice tx1) (to_double (gasPriceIncrement cfg)) of
           None \<Rightarrow> (sent, tx1\<lparr>tx_status := FAILED\<rparr>)
         | Some gasPrice \<Rightarrow>
             (let tx2 = tx1\<lparr>tx_gasPrice := gasPrice\<rparr>
              in case scale_price (tx_priorityFee tx2) (to_double (priorityFeeIncrement cfg)) of
                   None \<Rightarrow> (sent, tx2\<lparr>tx_status := FAILED\<rparr>)
                 | Some priorityFee \<Rightarrow>
                     (case executeTransaction world sent (tx2\<lparr>tx_priorityFee := priorityFee\<rparr>) of
                        (sent', tx3, result) \<Rightarrow>
                          if er_success result then
                            (sent', tx3\<lparr>tx_status := CONFIRMED, tx_txHash := er_txHash result,
                                       tx_blockNumber := er_blockNumber result,
                                       tx_gasUsed := er_gasUsed result\<rparr>)
                          else (sent', tx3\<lparr>tx_status := FAILED\<rparr>))))"

text \<open>
  The callback that \<^verbatim>\<open>processTransactionBatch\<close> maps over its transactions. A success of
  the retry changes the status only, not the counters.
\<close>

definition process_transaction ::
  "batch_processor_config \<Rightarrow> (nat \<Rightarrow> send_outcome) \<Rightarrow> string list \<times> batch_counts
     \<Rightarrow> batch_transaction \<Rightarrow> (string list \<times> batch_counts) \<times> batch_transaction" where
  "process_transaction cfg world st tx =
     (case st of (sent, acc) \<Rightarrow>
        (case executeTransaction world sent tx of
           (sent1, tx1, result) \<Rightarrow>
             if er_success result then
               ((sent1, acc\<lparr>successfulTxs := successfulTxs acc + 1,
                          totalGasUsed := totalGasUsed acc + or_zero (er_gasUsed result),
                          totalGasPrice := totalGasPrice acc + or_zero (er_gasPrice result)\<rparr>),
                tx1\<lparr>tx_status := CONFIRMED, tx_txHash := er_txHash result,
                    tx_blockNumber := er_blockNumber result, tx_gasUsed := er_gasUsed result\<rparr>)
             else
               (let acc1 = acc\<lparr>failedTxs := failedTxs acc + 1\<rparr>;
                    tx2 = tx1\<lparr>tx_status := FAILED\<rparr>
                in if tx_retryCount tx2 < retryAttempts cfg then
                     (case retryTransaction cfg world sent1 tx2 of
                        (sent2, tx3) \<Rightarrow> ((sent2, acc1), tx3))
                   else ((sent1, acc1), tx2))))"

text \<open>The transactions of one batch in turn, threading that list and the counters.\<close>

fun process_transactions ::
  "batch_processor_config \<Rightarrow> (nat \<Rightarrow> send_outcome) \<Rightarrow> string list \<times> batch_counts
     \<Rightarrow> batch_transaction list \<Rightarrow> (string list \<times> batch_counts) \<times> batch_transaction list" where
  "process_transactions cfg world st [] = (st, [])"
| "process_transactions cfg world st (tx # transactions) =
     (case process_transaction cfg world st tx of
        (st1, tx') \<Rightarrow>
          (case process_transactions cfg world st1 transactions of
             (st2, transactions') \<Rightarrow> (st2, tx' # transactions')))"

text \<open>
  \<^verbatim>\<open>processTransactionBatch\<close>: the counters start at zero; the result is the list of sends, the
  transactions as the callbacks leave them, and the counters. Every callback catches its
  own exceptions and \<^verbatim>\<open>Promise.allSettled\<close> does not reject, so the promise is fulfilled.
\<close>

definition processTransactionBatch ::
  "batch_processor_config \<Rightarrow> (nat \<Rightarrow> send_outcome) \<Rightarrow> string list \<Rightarrow> batch_transaction list
     \<Rightarrow> string list \<times> batch_transaction list \<times> batch_counts" where
  "processTransactionBatch cfg world sent transactions =
     (case process_transactions cfg world (sent, zero_counts) transactions of
        ((sent', acc), transactions') \<Rightarrow> (sent', transactions', acc))"

subsection \<open>Batches and groups of batches\<close>

text \<open>
  The loop over the settled results of one group in \<^verbatim>\<open>processTransactionsInBatches\<close>: a
  fulfilled result adds its counters, a rejected one adds \<^verbatim>\<open>batchSize\<close> to the failures.
\<close>

fun accumulate_results ::
  "nat \<Rightarrow> batch_counts \<Rightarrow> batch_counts settled list \<Rightarrow> batch_counts" where
  "accumulate_results batchSize acc [] = acc"
| "accumulate_results batchSize acc (Fulfilled v # results) =
     accumulate_results batchSize
       (acc\<lparr>successfulTxs := successfulTxs acc + successfulTxs v,
            failedTxs := failedTxs acc + failedTxs v,
            totalGasUsed := totalGasUsed acc + totalGasUsed v,
            totalGasPrice := totalGasPrice acc + totalGasPrice v\<rparr>)
       results"
| "accumulate_results batchSize acc (Rejected # results) =
     accumulate_results batchSize (acc\<lparr>failedTxs := failedTxs acc + batchSize\<rparr>) results"

text \<open>
  The inner loop, over \<open>j\<close>: cut the next batch out of the group and start it. The batches
  of a group run interleaved in the source and one after the other here. The result is the
  list of sends, the transactions of the batches from \<open>j\<close> on as they are left, and the
  settled results. \<open>None\<close> is a loop that does not end.
\<close>

partial_function (option) dispatch_batches ::
  "batch_processor_config \<Rightarrow> (nat \<Rightarrow> send_outcome) \<Rightarrow> batch_transaction list \<Rightarrow> nat
     \<Rightarrow> string list
     \<Rightarrow> (string list \<times> batch_transaction list \<times> batch_counts settled list) option" where
  "dispatch_batches cfg world batchGroup j sent =
     (if j < length batchGroup then
        (case processTransactionBatch cfg world sent
                (slice batchGroup j (j + maxBatchSize cfg)) of
           (sent1, batch', v) \<Rightarrow>
             Option.bind (dispatch_batches cfg world batchGroup (j + maxBatchSize cfg) sent1)
               (\<lambda>(sent2, rest', results). Some (sent2, batch' @ rest', Fulfilled v # results)))
      else Some (sent, [], []))"

text \<open>
  The outer loop, over \<open>i\<close>: one group of \<^verbatim>\<open>parallelBatches\<close> batches in each round. The
  delay between groups is not modelled. Each transaction lies in one batch only and is
  changed there only, so the transactions as they are left are the batches' transactions
  in order.
\<close>

partial_function (option) group_loop ::
  "batch_processor_config \<Rightarrow> (nat \<Rightarrow> send_outcome) \<Rightarrow> batch_transaction list \<Rightarrow> nat
     \<Rightarrow> string list \<Rightarrow> batch_counts
     \<Rightarrow> (string list \<times> batch_transaction list \<times> batch_counts) option" where
  "group_loop cfg world transactions i sent acc =
     (if i < length transactions then
        Option.bind
          (dispatch_batches cfg world
             (slice transactions i (i + maxBatchSize cfg * parallelBatches cfg)) 0 sent)
          (\<lambda>(sent1, group', results).
             Option.bind
               (group_loop cfg world transactions (i + maxBatchSize cfg * parallelBatches cfg)
                  sent1 (accumulate_results (maxBatchSize cfg) acc results))
               (\<lambda>(sent2, rest', acc2). Some (sent2, group' @ rest', acc2)))
      else Some (sent, [], acc))"

definition processTransactionsInBatches ::
  "batch_processor_config \<Rightarrow> (nat \<Rightarrow> send_outcome) \<Rightarrow> string list \<Rightarrow> batch_transaction list
     \<Rightarrow> (string list \<times> batch_transaction list \<times> batch_counts) option" where
  "processTransactionsInBatches cfg world sent transactions =
     group_loop cfg world transactions 0 sent zero_counts"

text \<open>
  \<^verbatim>\<open>processBatch\<close>: \<open>None\<close> when it does not return, \<open>Inl\<close> when it throws, otherwise the
  list of sends and the result. The result's transactions are the validated ones as the
  processing leaves them. The map of stored results is not modelled.
\<close>

definition processBatch ::
  "batch_processor_config \<Rightarrow> provider \<Rightarrow> (nat \<Rightarrow> send_outcome) \<Rightarrow> string list
     \<Rightarrow> batch_transaction list \<Rightarrow> (batch_error + string list \<times> batch_result) option" where
  "processBatch cfg prov world sent transactions =
     (let validTransactions = validateTransactions prov transactions
      in if length validTransactions = 0 then Some (Inl NoValidTransactions)
         else
           (case processTransactionsInBatches cfg world sent validTransactions of
              None \<Rightarrow> None
            | Some (sent', transactions', results) \<Rightarrow>
                Some (Inr (sent',
                  \<lparr>br_transactions = transactions',
                   br_successfulTxs = successfulTxs results,
                   br_failedTxs = failedTxs results,
                   br_totalGasUsed = totalGasUsed results,
                   br_totalGasPrice = totalGasPrice results,
                   br_success = (successfulTxs results > 0)\<rparr>))))"

subsection \<open>The queue and its dispatcher\<close>

record processor_state =
  batchQueue :: "batch_queue list"
  isProcessing :: bool
  batchCounter :: nat

definition priorityOrder :: "level \<Rightarrow> int" where
  "priorityOrder p = (case p of CRITICAL \<Rightarrow> 4 | HIGH \<Rightarrow> 3 | MEDIUM \<Rightarrow> 2 | LOW \<Rightarrow> 1)"

text \<open>The comparator that \<^verbatim>\<open>sortBatchQueue\<close> passes to \<^verbatim>\<open>sort\<close>.\<close>

definition compare_batches :: "batch_queue \<Rightarrow> batch_queue \<Rightarrow> int" where
  "compare_batches a b =
     (let aPriority = priorityOrder (bq_priority a);
          bPriority = priorityOrder (bq_priority b)
      in if aPriority \<noteq> bPriority then bPriority - aPriority
         else bq_createdAt a - bq_createdAt b)"

text \<open>
  \<^verbatim>\<open>Array.prototype.sort\<close> with a comparator is a stable sort; it is modelled by the stable
  insertion sort, which puts an element in front of the first one it does not compare
  greater than.
\<close>

fun insert_sorted :: "('a \<Rightarrow> 'a \<Rightarrow> int) \<Rightarrow> 'a \<Rightarrow> 'a list \<Rightarrow> 'a list" where
  "insert_sorted cmp x [] = [x]"
| "insert_sorted cmp x (y # ys) =
     (if cmp x y \<le> 0 then x # y # ys else y # insert_sorted cmp x ys)"

definition js_sort :: "('a \<Rightarrow> 'a \<Rightarrow> int) \<Rightarrow> 'a list \<Rightarrow> 'a list" where
  "js_sort cmp xs = foldr (insert_sorted cmp) xs []"

definition sortBatchQueue :: "batch_queue list \<Rightarrow> batch_queue list" where
  "sortBatchQueue queue = js_sort compare_batches queue"

text \<open>
  \<^verbatim>\<open>queueBatch\<close>. The three readings of the clock are arguments: for the identifier, for the
  deadline and for \<^verbatim>\<open>createdAt\<close>. Starting the dispatcher sets the flag; its timer is not
  modelled. The result is the new state and the batch identifier.
\<close>

definition queueBatch ::
  "batch_processor_config \<Rightarrow> processor_state \<Rightarrow> batch_transaction list \<Rightarrow> level
     \<Rightarrow> int \<Rightarrow> int \<Rightarrow> int \<Rightarrow> processor_state \<times> (int \<times> nat)" where
  "queueBatch cfg st transactions priority now_id now_deadline now_created =
     (let batchId = (now_id, batchCounter st + 1);
          timeout = now_deadline + batchTimeout cfg;
          batch = \<lparr>bq_id = batchId, bq_transactions = transactions, bq_priority = priority,
                   bq_createdAt = now_created, bq_timeout = timeout, bq_status = QUEUED\<rparr>
      in (st\<lparr>batchQueue := sortBatchQueue (batchQueue st @ [batch]),
             isProcessing := True,
             batchCounter := batchCounter st + 1\<rparr>,
          batchId))"

text \<open>
  \<^verbatim>\<open>processBatchQueue\<close>, one tick of the dispatcher at clock reading \<open>now\<close>. The result is
  the new state, the batch that was taken off the queue with the status it is left in (if
  there was one) and the list of sends; \<open>None\<close> when the tick does not return. The queued
  batch keeps the transaction list it was queued with. \<^verbatim>\<open>processBatch\<close> draws a batch
  identifier when it starts, so a batch that is processed moves the counter on by one.
\<close>

definition processBatchQueue ::
  "batch_processor_config \<Rightarrow> provider \<Rightarrow> (nat \<Rightarrow> send_outcome) \<Rightarrow> int
     \<Rightarrow> processor_state \<Rightarrow> string list
     \<Rightarrow> (processor_state \<times> batch_queue option \<times> string list) option" where
  "processBatchQueue cfg prov world now st sent =
     (case batchQueue st of
        [] \<Rightarrow> Some (st, None, sent)
      | batch # rest \<Rightarrow>
          if now > bq_timeout batch then
            Some (st\<lparr>batchQueue := rest\<rparr>, Some (batch\<lparr>bq_status := TIMEOUT\<rparr>), sent)
          else
            (case processBatch cfg prov world sent (bq_transactions batch) of
               None \<Rightarrow> None
             | Some (Inl e) \<Rightarrow>
                 Some (st\<lparr>batchQueue := rest, batchCounter := batchCounter st + 1\<rparr>,
                       Some (batch\<lparr>bq_status := BATCH_FAILED\<rparr>), sent)
             | Some (Inr (sent', result)) \<Rightarrow>
                 Some (st\<lparr>batchQueue := rest, batchCounter := batchCounter st + 1\<rparr>,
                       Some (batch\<lparr>bq_status :=
                               (if br_success result then COMPLETED else BATCH_FAILED)\<rparr>),
                       sent')))"

text \<open>
  The timer that \<^verbatim>\<open>startBatchProcessing\<close> sets fires \<^verbatim>\<open>processBatchQueue\<close> again and
  again. \<open>run_ticks\<close> is a finite run of firings at the given clock readings, each after the
  one before has returned; the result adds the batches taken off the queue, in order.
\<close>

fun run_ticks ::
  "batch_processor_config \<Rightarrow> provider \<Rightarrow> (nat \<Rightarrow> send_outcome) \<Rightarrow> int list
     \<Rightarrow> processor_state \<Rightarrow> string list
     \<Rightarrow> (processor_state \<times> batch_queue list \<times> string list) option" where
  "run_ticks cfg prov world [] st sent = Some (st, [], sent)"
| "run_ticks cfg prov world (now # later) st sent =
     (case processBatchQueue cfg prov world now st sent of
        None \<Rightarrow> None
      | Some (st1, taken, sent1) \<Rightarrow>
          (case run_ticks cfg prov world later st1 sent1 of
             None \<Rightarrow> None
           | Some (st2, batches, sent2) \<Rightarrow>
               Some (st2, (case taken of None \<Rightarrow> [] | Some b \<Rightarrow> [b]) @ batches, sent2)))"

section \<open>FourMemeBundler\<close>

datatype bundle_status = BUNDLE_PENDING | LAUNCHING | BUYING | BUNDLE_COMPLETED | BUNDLE_FAILED

text \<open>The fields of an \<^verbatim>\<open>ethers.TransactionRequest\<close> that the bundler sets.\<close>

record transaction_request =
  tr_to :: "string option"
  tr_value :: "int option"
  tr_gasLimit :: "int option"
  tr_gasPrice :: "int option"

record wallet_config =
  wc_address :: string
  wc_privateKey :: string
  wc_buyAmount :: int

text \<open>\<^verbatim>\<open>LaunchBundle\<close>, without the fields that \<^verbatim>\<open>executeLaunchBundle\<close> never touches.\<close>

record launch_bundle =
  lb_launchTx :: transaction_request
  lb_buyTxs :: "transaction_request list"
  lb_wallets :: "wallet_config list"
  lb_status :: bundle_status
  lb_launchTxHash :: "string option"
  lb_blockNumber :: "int option"

text \<open>\<^verbatim>\<open>BundleResult\<close>, without \<^verbatim>\<open>bundleId\<close> and \<^verbatim>\<open>executionTime\<close>.\<close>

record bundle_result =
  res_success :: bool
  res_launchSuccess :: bool
  res_buySuccess :: bool
  res_totalBuys :: nat
  res_successfulBuys :: nat
  res_failedBuys :: nat
  res_totalGasUsed :: int
  res_totalGasPrice :: int
  res_totalProfit :: real
  res_error :: "string option"
  res_launchTxHash :: "string option"
  res_buyTxHashes :: "string list"
  res_blockNumber :: "int option"

text \<open>
  What an execution does that can be seen from outside, in the order it happens: an
  assignment to the bundle's status, the launch transaction handed to
  \<^verbatim>\<open>sendTransaction\<close>, and the buy transaction of a given index handed to it.
\<close>

datatype bundle_event =
  StatusSet bundle_status
| LaunchSend transaction_request
| BuySend nat transaction_request

text \<open>
  The collaborators of one execution: the MEV transform (\<^verbatim>\<open>protectTransaction\<close> catches
  its own errors and always returns a transaction), whether a private key makes a wallet,
  and what the network does with the launch and with the buy of each index.
\<close>

record bundler_env =
  protect :: "transaction_request \<Rightarrow> transaction_request"
  valid_key :: "string \<Rightarrow> bool"
  launch_outcome :: send_outcome
  buy_outcome :: "nat \<Rightarrow> send_outcome"

text \<open>\<^verbatim>\<open>executeLaunchTransaction\<close>: the result object and the event of the send.\<close>

definition executeLaunchTransaction ::
  "bundler_env \<Rightarrow> launch_bundle \<Rightarrow> exec_result \<times> bundle_event list" where
  "executeLaunchTransaction env bundle =
     (let protectedTx = protect env (lb_launchTx bundle)
      in (case launch_outcome env of
            SendThrows \<Rightarrow> exec_failure
          | WaitThrows h \<Rightarrow> exec_failure
          | Mined r \<Rightarrow>
              if rc_status r = 1 then
                \<lparr>er_success = True, er_txHash = Some (rc_hash r),
                 er_blockNumber = Some (rc_blockNumber r), er_gasUsed = Some (rc_gasUsed r),
                 er_gasPrice = Some (rc_gasPrice r)\<rparr>
              else exec_failure,
          [LaunchSend protectedTx]))"

text \<open>The counters and the hashes that \<^verbatim>\<open>executeBuyTransactions\<close> accumulates, with the events.\<close>

record buy_acc =
  ba_successfulBuys :: nat
  ba_failedBuys :: nat
  ba_totalGasUsed :: int
  ba_totalGasPrice :: int
  ba_totalProfit :: real
  ba_txHashes :: "string list"
  ba_events :: "bundle_event list"

definition zero_buys :: buy_acc where
  "zero_buys =
     \<lparr>ba_successfulBuys = 0, ba_failedBuys = 0, ba_totalGasUsed = 0, ba_totalGasPrice = 0,
      ba_totalProfit = 0, ba_txHashes = [], ba_events = []\<rparr>"

text \<open>
  The callback mapped over one batch of buys, for the buy at position \<open>index\<close> of the batch
  that starts at \<open>i\<close>. A missing wallet or a key that makes no wallet throws before anything
  is sent; every exception counts one failed buy.
\<close>

definition buy_callback ::
  "bundler_env \<Rightarrow> wallet_config list \<Rightarrow> nat \<Rightarrow> transaction_request \<times> nat \<Rightarrow> buy_acc \<Rightarrow> buy_acc" where
  "buy_callback env batchWallets i p acc =
     (case p of (buyTx, index) \<Rightarrow>
        if \<not> index < length batchWallets then acc\<lparr>ba_failedBuys := ba_failedBuys acc + 1\<rparr>
        else
          (let wallet = batchWallets ! index
           in if \<not> valid_key env (wc_privateKey wallet) then
                acc\<lparr>ba_failedBuys := ba_failedBuys acc + 1\<rparr>
              else
                (let protectedTx = protect env buyTx;
                     acc1 = acc\<lparr>ba_events := ba_events acc @ [BuySend (i + index) protectedTx]\<rparr>
                 in case buy_outcome env (i + index) of
                      SendThrows \<Rightarrow> acc1\<lparr>ba_failedBuys := ba_failedBuys acc1 + 1\<rparr>
                    | WaitThrows h \<Rightarrow>
                        acc1\<lparr>ba_txHashes := ba_txHashes acc1 @ [h],
                             ba_failedBuys := ba_failedBuys acc1 + 1\<rparr>
                    | Mined r \<Rightarrow>
                        if rc_status r = 1 then
                          acc1\<lparr>ba_txHashes := ba_txHashes acc1 @ [rc_hash r],
                               ba_successfulBuys := ba_successfulBuys acc1 + 1,
                               ba_totalGasUsed := ba_totalGasUsed acc1 + rc_gasUsed r,
                               ba_totalGasPrice := ba_totalGasPrice acc1 + rc_gasPrice r,
                               ba_totalProfit := ba_totalProfit acc1
                                 + real_of_int (wc_buyAmount wallet) / 1000000000000000000 * 0.1\<rparr>
                        else
                          acc1\<lparr>ba_txHashes := ba_txHashes acc1 @ [rc_hash r],
                               ba_failedBuys := ba_failedBuys acc1 + 1\<rparr>)))"

text \<open>
  The loop of \<^verbatim>\<open>executeBuyTransactions\<close> over batches of ten; the buys of one batch run
  interleaved in the source and in list order here, and the delay between batches is not
  modelled.
\<close>

function buy_loop :: "bundler_env \<Rightarrow> launch_bundle \<Rightarrow> nat \<Rightarrow> buy_acc \<Rightarrow> buy_acc" where
  "buy_loop env bundle i acc =
     (if i < length (lb_buyTxs bundle) then
        (let batch = slice (lb_buyTxs bundle) i (i + 10);
             batchWallets = slice (lb_wallets bundle) i (i + 10)
         in buy_loop env bundle (i + 10)
              (fold (buy_callback env batchWallets i) (zip batch [0..<length batch]) acc))
      else acc)"
  by pat_completeness auto
termination
  by (relation "measure (\<lambda>(env, bundle, i, acc). length (lb_buyTxs bundle) - i)") auto

definition executeBuyTransactions :: "bundler_env \<Rightarrow> launch_bundle \<Rightarrow> buy_acc" where
  "executeBuyTransactions env bundle = buy_loop env bundle 0 zero_buys"

text \<open>\<^verbatim>\<open>createFailedResult\<close> and the result of the outer handler, which differ in the message only.\<close>

definition createFailedResult :: "string \<Rightarrow> bundle_result" where
  "createFailedResult error =
     \<lparr>res_success = False, res_launchSuccess = False, res_buySuccess = False,
      res_totalBuys = 0, res_successfulBuys = 0, res_failedBuys = 0, res_totalGasUsed = 0,
      res_totalGasPrice = 0, res_totalProfit = 0, res_error = Some error,
      res_launchTxHash = None, res_buyTxHashes = [], res_blockNumber = None\<rparr>"

text \<open>
  \<^verbatim>\<open>executeLaunchBundle\<close> on the map of active bundles: the map afterwards, the result
  and the events in order. An unknown identifier throws into the outer handler before
  anything happens. The map of stored results and the emitted event are not modelled.
\<close>

definition executeLaunchBundle ::
  "bundler_env \<Rightarrow> (string \<rightharpoonup> launch_bundle) \<Rightarrow> string
     \<Rightarrow> (string \<rightharpoonup> launch_bundle) \<times> bundle_result \<times> bundle_event list" where
  "executeLaunchBundle env activeBundles bundleId =
     (case activeBundles bundleId of
        None \<Rightarrow> (activeBundles, createFailedResult ''Bundle not found'', [])
      | Some bundle \<Rightarrow>
          (case executeLaunchTransaction env (bundle\<lparr>lb_status := LAUNCHING\<rparr>) of
             (launchResult, launchEvents) \<Rightarrow>
               if \<not> er_success launchResult then
                 (activeBundles(bundleId \<mapsto> bundle\<lparr>lb_status := BUNDLE_FAILED\<rparr>),
                  createFailedResult ''Launch transaction failed'',
                  StatusSet LAUNCHING # launchEvents @ [StatusSet BUNDLE_FAILED])
               else
                 (let bundle1 = bundle\<lparr>lb_status := BUYING,
                                       lb_launchTxHash := er_txHash launchResult,
                                       lb_blockNumber := er_blockNumber launchResult\<rparr>;
                      buyResult = executeBuyTransactions env bundle1;
                      buySuccess = (ba_successfulBuys buyResult > 0);
                      bundleResult =
                        \<lparr>res_success = (er_success launchResult \<and> buySuccess),
                         res_launchSuccess = er_success launchResult,
                         res_buySuccess = buySuccess,
                         res_totalBuys = length (lb_buyTxs bundle1),
                         res_successfulBuys = ba_successfulBuys buyResult,
                         res_failedBuys = ba_failedBuys buyResult,
                         res_totalGasUsed =
                           or_zero (er_gasUsed launchResult) + ba_totalGasUsed buyResult,
                         res_totalGasPrice =
                           or_zero (er_gasPrice launchResult) + ba_totalGasPrice buyResult,
                         res_totalProfit = ba_totalProfit buyResult,
                         res_error = None,
                         res_launchTxHash = er_txHash launchResult,
                         res_buyTxHashes = ba_txHashes buyResult,
                         res_blockNumber = er_blockNumber launchResult\<rparr>;
                      final = (if res_success bundleResult then BUNDLE_COMPLETED
                               else BUNDLE_FAILED)
                  in (activeBundles(bundleId \<mapsto> bundle1\<lparr>lb_status := final\<rparr>),
                      bundleResult,
                      StatusSet LAUNCHING # launchEvents @ [StatusSet BUYING]
                        @ ba_events buyResult @ [StatusSet final]))))"

section \<open>Concrete inputs\<close>

text \<open>Ten samples with gas price zero, as recorded when the fee data carry no gas price.\<close>

definition zero_history :: "gas_price_data list" where
  "zero_history = replicate 10 (sample 0)"

text \<open>Ten samples around 4 gwei whose standard deviation is 1.7 gwei.\<close>

definition volatile_history :: "gas_price_data list" where
  "volatile_history =
     [sample 2300000000, sample 2300000000, sample 2300000000, sample 2300000000,
      sample 2300000000, sample 5700000000, sample 5700000000, sample 5700000000,
      sample 5700000000, sample 5700000000]"

definition disabled_gas_config :: gas_optimization_config where
  "disabled_gas_config = default_gas_config\<lparr>enabled := False\<rparr>"

definition unbuffered_gas_config :: gas_optimization_config where
  "unbuffered_gas_config = default_gas_config\<lparr>gasPriceBuffer := 1\<rparr>"

text \<open>A funded transaction with destination and wallet, a gas price of 5 wei and no retry yet.\<close>

definition demo_tx :: "string \<Rightarrow> batch_transaction" where
  "demo_tx name =
     \<lparr>tx_id = name, tx_to = Some ''0xT'', tx_gasLimit = Some 21000, tx_value = Some 0,
      tx_wallet = Some ''0xW'', tx_nonce = 1, tx_gasPrice = 5, tx_priorityFee = 3,
      tx_maxFeePerGas = 0, tx_status = PENDING, tx_retryCount = 0, tx_txHash = None,
      tx_blockNumber = None, tx_gasUsed = None\<rparr>"


definition exhausted_tx :: batch_transaction where
  "exhausted_tx = (demo_tx ''c'')\<lparr>tx_retryCount := 3\<rparr>"

definition funded_provider :: provider where
  "funded_provider =
     \<lparr>getBalance = (\<lambda>a. Some 1000000000000000000), getTransactionCount = (\<lambda>a. Some 7)\<rparr>"

definition demo_receipt :: receipt where
  "demo_receipt =
     \<lparr>rc_hash = ''0xH'', rc_status = 1, rc_blockNumber = 100, rc_gasUsed = 21000,
      rc_gasPrice = 5\<rparr>"

text \<open>A network whose first send throws and whose later sends are mined with success.\<close>

definition fail_then_mine :: "nat \<Rightarrow> send_outcome" where
  "fail_then_mine n = (if n = 0 then SendThrows else Mined demo_receipt)"

text \<open>\<open>demo_tx ''a''\<close> after a failed first attempt and a confirmed retry.\<close>

definition retried_tx :: batch_transaction where
  "retried_tx =
     (demo_tx ''a'')\<lparr>tx_status := CONFIRMED, tx_retryCount := 1, tx_txHash := Some ''0xH'',
                     tx_blockNumber := Some 100, tx_gasUsed := Some 21000\<rparr>"

definition idle_state :: processor_state where
  "idle_state = \<lparr>batchQueue = [], isProcessing = False, batchCounter = 0\<rparr>"

text \<open>The default configuration with a deadline one millisecond before the enqueue.\<close>

definition expired_batch_config :: batch_processor_config where
  "expired_batch_config = default_batch_config\<lparr>batchTimeout := - 1\<rparr>"

text \<open>
  The queue after three enqueues into the idle processor, with priorities LOW, HIGH and
  MEDIUM at the clock readings 0, 1 and 2.
\<close>

definition three_queued :: processor_state where
  "three_queued =
     fst (queueBatch default_batch_config
       (fst (queueBatch default_batch_config
         (fst (queueBatch default_batch_config idle_state [] LOW 0 0 0))
         [] HIGH 1 1 1))
       [] MEDIUM 2 2 2)"

definition queued :: "level \<Rightarrow> int \<Rightarrow> nat \<Rightarrow> batch_queue" where
  "queued p t n =
     \<lparr>bq_id = (t, n), bq_transactions = [], bq_priority = p, bq_createdAt = t,
      bq_timeout = t + 300000, bq_status = QUEUED\<rparr>"

definition demo_request :: transaction_request where
  "demo_request =
     \<lparr>tr_to = Some ''0xF'', tr_value = Some 1, tr_gasLimit = Some 500000, tr_gasPrice = Some 5\<rparr>"

definition demo_wallet :: wallet_config where
  "demo_wallet =
     \<lparr>wc_address = ''0xW'', wc_privateKey = ''k'', wc_buyAmount = 10000000000000000\<rparr>"

text \<open>A pending bundle with one buy.\<close>

definition demo_bundle :: launch_bundle where
  "demo_bundle =
     \<lparr>lb_launchTx = demo_request, lb_buyTxs = [demo_request], lb_wallets = [demo_wallet],
      lb_status = BUNDLE_PENDING, lb_launchTxHash = None, lb_blockNumber = None\<rparr>"

text \<open>Collaborators that leave transactions as they are and mine every buy; the launch is given.\<close>

definition env_with :: "send_outcome \<Rightarrow> bundler_env" where
  "env_with out =
     \<lparr>protect = (\<lambda>t. t), valid_key = (\<lambda>k. True), launch_outcome = out,
      buy_outcome = (\<lambda>k. Mined demo_receipt)\<rparr>"








definition unit_increment_batch_config :: batch_processor_config where
  "unit_increment_batch_config = default_batch_config\<lparr>gasPriceIncrement := 1\<rparr>"

text \<open>A network that mines every send with success.\<close>

definition always_mined :: "nat \<Rightarrow> send_outcome" where
  "always_mined n = Mined demo_receipt"

text \<open>\<open>demo_tx name\<close> after one confirmed attempt.\<close>

definition confirmed_tx :: "string \<Rightarrow> batch_transaction" where
  "confirmed_tx name =
     (demo_tx name)\<lparr>tx_status := CONFIRMED, tx_txHash := Some ''0xH'',
                     tx_blockNumber := Some 100, tx_gasUsed := Some 21000\<rparr>"

text \<open>
  The processor after three enqueues into the idle one, of one transaction each, with the
  priorities LOW, HIGH and MEDIUM at the clock readings 0, 1 and 2; and a queued batch
  with one transaction.
\<close>

definition three_loaded :: processor_state where
  "three_loaded =
     fst (queueBatch default_batch_config
       (fst (queueBatch default_batch_config
         (fst (queueBatch default_batch_config idle_state [demo_tx ''l''] LOW 0 0 0))
         [demo_tx ''h''] HIGH 1 1 1))
       [demo_tx ''m''] MEDIUM 2 2 2)"

definition loaded :: "string \<Rightarrow> level \<Rightarrow> int \<Rightarrow> nat \<Rightarrow> batch_queue" where
  "loaded name p t n =
     \<lparr>bq_id = (t, n), bq_transactions = [demo_tx name], bq_priority = p, bq_createdAt = t,
      bq_timeout = t + 300000, bq_status = QUEUED\<rparr>"

section \<open>Predicates of the properties\<close>

text \<open>The two statuses that end the life of a transaction.\<close>

definition terminal :: "tx_status \<Rightarrow> bool" where
  "terminal s = (s = CONFIRMED \<or> s = FAILED)"

text \<open>
  What processing the transactions \<open>txs\<close> from the list of sends \<open>sent\<close> has to leave behind:
  the same transactions in the same order, each with a terminal status, and sends for
  exactly their identifiers appended.
\<close>

definition settles ::
  "string list \<Rightarrow> batch_transaction list \<Rightarrow> string list \<times> batch_transaction list \<times> 'a
     \<Rightarrow> bool" where
  "settles sent txs y =
     (case y of (sent', txs', r) \<Rightarrow>
        map tx_id txs' = map tx_id txs \<and> (\<forall>t \<in> set txs'. terminal (tx_status t))
        \<and> (\<exists>ex. sent' = sent @ ex \<and> set ex = set (map tx_id txs)))"

text \<open>What a group's dispatch leaves when no batch of it was rejected.\<close>

definition all_fulfilled ::
  "string list \<times> batch_transaction list \<times> batch_counts settled list \<Rightarrow> bool" where
  "all_fulfilled y = (case y of (sent', txs', results) \<Rightarrow> Rejected \<notin> set results)"

text \<open>
  A validation failure in the words of the specification: no destination, no signer, or a
  balance that does not cover gas cost plus value.
\<close>

definition fails_validation :: "provider \<Rightarrow> batch_transaction \<Rightarrow> bool" where
  "fails_validation prov tx =
     (tx_to tx = None \<or> tx_to tx = Some []
      \<or> (case tx_wallet tx of
            None \<Rightarrow> True
          | Some address \<Rightarrow>
              (case getBalance prov address of
                 None \<Rightarrow> False
               | Some balance \<Rightarrow>
                   balance < tx_gasPrice tx
                       * (case tx_gasLimit tx of
                            None \<Rightarrow> 200000
                          | Some g \<Rightarrow> if g = 0 then 200000 else g)
                     + or_zero (tx_value tx))))"

text \<open>
  The provider reads that the validation of a transaction needs: the balance of the
  signer and, when the nonce is unset, the transaction count.
\<close>

definition provider_reads_succeed :: "provider \<Rightarrow> batch_transaction \<Rightarrow> bool" where
  "provider_reads_succeed prov tx =
     (case tx_wallet tx of
        None \<Rightarrow> True
      | Some address \<Rightarrow>
          getBalance prov address \<noteq> None
          \<and> (if tx_nonce tx = 0 then getTransactionCount prov address \<noteq> None else True))"

text \<open>A transaction is valid when it does not fail the validation and the reads succeed.\<close>

definition passes_validation :: "provider \<Rightarrow> batch_transaction \<Rightarrow> bool" where
  "passes_validation prov tx =
     (\<not> fails_validation prov tx \<and> provider_reads_succeed prov tx)"

text \<open>The fresh nonce that the specification assigns when the nonce is unset.\<close>

definition assign_nonce :: "provider \<Rightarrow> batch_transaction \<Rightarrow> batch_transaction" where
  "assign_nonce prov tx =
     (if tx_nonce tx = 0 then
        (case tx_wallet tx of
           None \<Rightarrow> tx
         | Some address \<Rightarrow>
             (case getTransactionCount prov address of
                None \<Rightarrow> tx
              | Some n \<Rightarrow> tx\<lparr>tx_nonce := n\<rparr>))
      else tx)"

text \<open>The order of the priorities in the words of the specification: CRITICAL > HIGH > MEDIUM > LOW.\<close>

definition outranks :: "level \<Rightarrow> level \<Rightarrow> bool" where
  "outranks p q =
     (case p of
        CRITICAL \<Rightarrow> q = HIGH \<or> q = MEDIUM \<or> q = LOW
      | HIGH \<Rightarrow> q = MEDIUM \<or> q = LOW
      | MEDIUM \<Rightarrow> q = LOW
      | LOW \<Rightarrow> False)"

text \<open>
  The order of the queue in the words of the specification: higher priority first, and
  among equal priorities the earlier \<^verbatim>\<open>createdAt\<close> first.
\<close>

definition dispatched_before :: "batch_queue \<Rightarrow> batch_queue \<Rightarrow> bool" where
  "dispatched_before a b =
     (outranks (bq_priority a) (bq_priority b)
      \<or> (bq_priority a = bq_priority b \<and> bq_createdAt a \<le> bq_createdAt b))"

text \<open>The launch is confirmed when its receipt arrives with status 1.\<close>

definition launch_confirmed :: "send_outcome \<Rightarrow> bool" where
  "launch_confirmed out = (case out of Mined r \<Rightarrow> rc_status r = 1 | _ \<Rightarrow> False)"

section \<open>Properties of the rounding\<close>

lemma round_half_even_near:
  "\<bar>real_of_int (round_half_even y) - y\<bar> \<le> 1 / 2"
  unfolding round_half_even_def Let_def by (auto simp: abs_le_iff)

lemma round_half_even_of_int [simp]: "round_half_even (real_of_int k) = k"
  by (simp add: round_half_even_def)

lemma round_half_even_mono:
  assumes "y \<le> z"
  shows "round_half_even y \<le> round_half_even z"
proof (rule ccontr)
  assume "\<not> ?thesis"
  then have gt: "round_half_even z + 1 \<le> round_half_even y" by simp
  have a: "real_of_int (round_half_even y) - 1 / 2 \<le> y"
    using round_half_even_near [of y] by linarith
  have b: "z \<le> real_of_int (round_half_even z) + 1 / 2"
    using round_half_even_near [of z] by linarith
  have c: "real_of_int (round_half_even z) + 1 \<le> real_of_int (round_half_even y)"
    using gt by linarith
  from a b c assms have "y = z" by linarith
  with gt show False by simp
qed

lemma bitlen_pos: "0 < m \<Longrightarrow> 1 \<le> bitlen m"
  by (auto simp: bitlen_alt_def)

lemma exponent_bounds:
  assumes "x \<noteq> 0"
  shows "2 powi exponent x \<le> \<bar>x\<bar>" and "\<bar>x\<bar> < 2 powi (exponent x + 1)"
proof -
  have "2 powi exponent x \<le> \<bar>x\<bar> \<and> \<bar>x\<bar> < 2 powi (exponent x + 1)"
  proof (cases "1 \<le> \<bar>x\<bar>")
    case True
    define n where "n = \<lfloor>\<bar>x\<bar>\<rfloor>"
    have n: "0 < n" using True by (simp add: n_def)
    define b where "b = bitlen n"
    have b1: "1 \<le> b" using n by (simp add: b_def bitlen_pos)
    have bb: "2 ^ nat (b - 1) \<le> n" "n < 2 ^ nat b"
      using bitlen_bounds [OF n] by (simp_all add: b_def)
    have e: "exponent x = b - 1" using True by (simp add: exponent_def n_def b_def)
    have p1: "(2::real) powi (b - 1) = 2 ^ nat (b - 1)" using b1 by (simp add: power_int_def)
    have p2: "(2::real) powi b = 2 ^ nat b" using b1 by (simp add: power_int_def)
    have "(2::real) ^ nat (b - 1) \<le> real_of_int n"
      using of_int_le_iff [of "2 ^ nat (b - 1)" n, where ?'a = real] bb(1) by simp
    moreover have "real_of_int n \<le> \<bar>x\<bar>" by (simp add: n_def)
    ultimately have lo: "2 ^ nat (b - 1) \<le> \<bar>x\<bar>" by linarith
    have "\<bar>x\<bar> < real_of_int n + 1" by (simp add: n_def)
    moreover have "real_of_int n + 1 \<le> (2::real) ^ nat b"
      using of_int_le_iff [of "n + 1" "2 ^ nat b", where ?'a = real] bb(2) by simp
    ultimately have hi: "\<bar>x\<bar> < 2 ^ nat b" by linarith
    show ?thesis using lo hi by (simp add: e p1 p2)
  next
    case False
    define y where "y = 1 / \<bar>x\<bar>"
    have x0: "0 < \<bar>x\<bar>" using assms by simp
    have y1: "1 < y" using False x0 by (simp add: y_def)
    define m where "m = \<lceil>y\<rceil> - 1"
    have m: "0 < m" using y1 by (simp add: m_def)
    define b where "b = bitlen m"
    have b1: "1 \<le> b" using m by (simp add: b_def bitlen_pos)
    have bb: "2 ^ nat (b - 1) \<le> m" "m < 2 ^ nat b"
      using bitlen_bounds [OF m] by (simp_all add: b_def)
    have e: "exponent x = - b" using False by (simp add: exponent_def m_def b_def y_def)
    have p1: "(2::real) powi (- b) = 1 / 2 ^ nat b" using b1 by (simp add: power_int_def field_simps)
    have p2: "(2::real) powi (1 - b) = 1 / 2 ^ nat (b - 1)"
      using b1 by (auto simp: power_int_def field_simps nat_diff_distrib)
    have "y \<le> real_of_int m + 1" by (simp add: m_def)
    moreover have "real_of_int m + 1 \<le> (2::real) ^ nat b"
      using of_int_le_iff [of "m + 1" "2 ^ nat b", where ?'a = real] bb(2) by simp
    ultimately have yhi: "y \<le> 2 ^ nat b" by linarith
    have "real_of_int m < y" unfolding m_def by linarith
    moreover have "(2::real) ^ nat (b - 1) \<le> real_of_int m"
      using of_int_le_iff [of "2 ^ nat (b - 1)" m, where ?'a = real] bb(1) by simp
    ultimately have ylo: "2 ^ nat (b - 1) < y" by linarith
    have lo: "1 / 2 ^ nat b \<le> \<bar>x\<bar>"
      using yhi x0 by (simp add: y_def field_simps)
    have hi: "\<bar>x\<bar> < 1 / 2 ^ nat (b - 1)"
      using ylo x0 by (simp add: y_def field_simps)
    show ?thesis using lo hi by (simp add: e p1 p2)
  qed
  then show "2 powi exponent x \<le> \<bar>x\<bar>" and "\<bar>x\<bar> < 2 powi (exponent x + 1)" by simp_all
qed

lemma powi_less_cancel:
  assumes "(2::real) powi m < 2 powi n"
  shows "m < n"
proof (rule ccontr)
  assume "\<not> m < n"
  then have "(2::real) powi n \<le> 2 powi m" by (intro power_int_increasing) auto
  with assms show False by simp
qed

lemma powi_split:
  "(2::real) powi (E + 1) = 2 ^ 53 * 2 powi (E - 52)"
  "(2::real) powi E = 2 ^ 52 * 2 powi (E - 52)"
proof -
  have a: "E + 1 = 53 + (E - 52)" and b: "E = 52 + (E - 52)" by simp_all
  have "(2::real) powi (53 + (E - 52)) = 2 powi 53 * 2 powi (E - 52)"
    by (rule power_int_add) simp
  then show "(2::real) powi (E + 1) = 2 ^ 53 * 2 powi (E - 52)"
    unfolding a [symmetric] by (simp only: power_int_numeral)
  have "(2::real) powi (52 + (E - 52)) = 2 powi 52 * 2 powi (E - 52)"
    by (rule power_int_add) simp
  then show "(2::real) powi E = 2 ^ 52 * 2 powi (E - 52)"
    unfolding b [symmetric] by (simp only: power_int_numeral)
qed

lemma of_int_ge_numeral_power:
  "2 ^ n \<le> k \<Longrightarrow> (2::real) ^ n \<le> real_of_int k"
  "k \<le> 2 ^ n \<Longrightarrow> real_of_int k \<le> (2::real) ^ n"
  using of_int_le_iff [of "2 ^ n" k, where ?'a = real]
    of_int_le_iff [of k "2 ^ n", where ?'a = real] by simp_all

lemma ulp_pos: "0 < ulp x"
  by (simp add: ulp_def)

lemma exponent_mono:
  assumes "0 < x" and "x \<le> y"
  shows "exponent x \<le> exponent y"
proof -
  have "2 powi exponent x \<le> x" using exponent_bounds(1) [of x] assms by simp
  moreover have "y < 2 powi (exponent y + 1)" using exponent_bounds(2) [of y] assms by simp
  ultimately have "(2::real) powi exponent x < 2 powi (exponent y + 1)" using assms by linarith
  then have "exponent x < exponent y + 1"
    by (rule powi_less_cancel)
  then show ?thesis by simp
qed

lemma round_magnitude_upper:
  assumes "0 < x"
  shows "round_magnitude x \<le> 2 powi (max (exponent x) (- 1022) + 1)"
proof -
  define E where "E = max (exponent x) (- 1022)"
  have u: "ulp x = 2 powi (E - 52)" by (simp add: ulp_def E_def)
  have "x < 2 powi (exponent x + 1)" using exponent_bounds(2) [of x] assms by simp
  also have "\<dots> \<le> 2 powi (E + 1)" by (intro power_int_increasing) (auto simp: E_def)
  finally have "x < 2 powi (E + 1)" .
  then have "x < 2 ^ 53 * 2 powi (E - 52)"
    by (simp only: powi_split(1))
  then have "x / ulp x \<le> real_of_int (2 ^ 53)"
    by (simp add: u field_simps)
  then have "round_half_even (x / ulp x) \<le> round_half_even (real_of_int (2 ^ 53))"
    by (rule round_half_even_mono)
  then have "real_of_int (round_half_even (x / ulp x)) \<le> 2 ^ 53"
    unfolding round_half_even_of_int by (rule of_int_ge_numeral_power(2))
  then have "round_magnitude x \<le> 2 ^ 53 * 2 powi (E - 52)"
    unfolding round_magnitude_def u by (intro mult_right_mono) simp_all
  then have "round_magnitude x \<le> 2 powi (E + 1)"
    by (simp only: powi_split(1))
  then show ?thesis by (simp only: E_def)
qed

lemma round_magnitude_lower:
  assumes "0 < x" and "- 1022 \<le> exponent x"
  shows "2 powi exponent x \<le> round_magnitude x"
proof -
  define e where "e = exponent x"
  have u: "ulp x = 2 powi (e - 52)" using assms(2) by (simp add: ulp_def e_def max_def)
  have "2 powi e \<le> x" using exponent_bounds(1) [of x] assms by (simp add: e_def)
  then have "2 ^ 52 * 2 powi (e - 52) \<le> x"
    by (simp only: powi_split(2) [symmetric])
  then have "real_of_int (2 ^ 52) \<le> x / ulp x"
    by (simp add: u field_simps)
  then have "round_half_even (real_of_int (2 ^ 52)) \<le> round_half_even (x / ulp x)"
    by (rule round_half_even_mono)
  then have "2 ^ 52 \<le> real_of_int (round_half_even (x / ulp x))"
    unfolding round_half_even_of_int by (rule of_int_ge_numeral_power(1))
  then have "2 ^ 52 * 2 powi (e - 52) \<le> round_magnitude x"
    unfolding round_magnitude_def u by (intro mult_right_mono) simp_all
  then have "2 powi e \<le> round_magnitude x"
    by (simp only: powi_split(2) [symmetric])
  then show ?thesis by (simp only: e_def)
qed

lemma round_magnitude_mono:
  assumes "0 < x" and "x \<le> y"
  shows "round_magnitude x \<le> round_magnitude y"
proof -
  define Ex where "Ex = max (exponent x) (- 1022)"
  define Ey where "Ey = max (exponent y) (- 1022)"
  have le: "Ex \<le> Ey" using exponent_mono [OF assms] by (simp add: Ex_def Ey_def)
  show ?thesis
  proof (cases "Ex = Ey")
    case True
    then have u: "ulp x = ulp y" by (simp add: ulp_def Ex_def Ey_def)
    have "x / ulp y \<le> y / ulp y" using assms ulp_pos [of y] by (simp add: divide_right_mono)
    then have "round_half_even (x / ulp y) \<le> round_half_even (y / ulp y)"
      by (rule round_half_even_mono)
    then show ?thesis
      unfolding round_magnitude_def u using ulp_pos [of y] by (intro mult_right_mono) simp_all
  next
    case False
    with le have lt: "Ex < Ey" by simp
    then have ey: "exponent y = Ey" "- 1022 \<le> exponent y" by (auto simp: Ex_def Ey_def)
    have "round_magnitude x \<le> 2 powi (Ex + 1)"
      using round_magnitude_upper [OF assms(1)] by (simp add: Ex_def)
    also have "\<dots> \<le> 2 powi Ey" using lt by (intro power_int_increasing) auto
    also have "\<dots> \<le> round_magnitude y"
      using round_magnitude_lower [of y] assms ey by simp
    finally show ?thesis .
  qed
qed

lemma round_magnitude_of_int:
  assumes "0 < p" and "p \<le> 2 ^ 53"
  shows "round_magnitude (real_of_int p) = real_of_int p"
proof -
  define e where "e = exponent (real_of_int p)"
  have lo: "2 powi e \<le> real_of_int p" and hi: "real_of_int p < 2 powi (e + 1)"
    using exponent_bounds [of "real_of_int p"] assms by (simp_all add: e_def)
  have "1 \<le> real_of_int p" using assms(1) by simp
  then have "(2::real) powi 0 < 2 powi (e + 1)" using hi by simp
  then have "0 < e + 1" by (rule powi_less_cancel)
  then have e0: "0 \<le> e" by simp
  have p53: "real_of_int p \<le> 2 ^ 53" using assms(2) by (rule of_int_ge_numeral_power(2))
  then have "(2::real) powi e < 2 powi 54" using lo by simp
  then have "e < 54" by (rule powi_less_cancel)
  then have e53: "e \<le> 53" by simp
  have u: "ulp (real_of_int p) = 2 powi (e - 52)" using e0 by (simp add: ulp_def e_def max_def)
  have "\<exists>k. real_of_int p / 2 powi (e - 52) = real_of_int k"
  proof (cases "e \<le> 52")
    case True
    then have "(2::real) powi (e - 52) = 1 / 2 ^ nat (52 - e)"
      by (simp add: power_int_def field_simps)
    then have "real_of_int p / 2 powi (e - 52) = real_of_int (p * 2 ^ nat (52 - e))" by simp
    then show ?thesis by blast
  next
    case False
    with e53 have e: "e = 53" by simp
    then have "2 ^ 53 \<le> real_of_int p" using lo by simp
    then have "real_of_int p = 2 ^ 53" using p53 by simp
    then have "real_of_int p / 2 powi (e - 52) = real_of_int (2 ^ 52)" by (simp add: e)
    then show ?thesis by blast
  qed
  then obtain k where k: "real_of_int p / 2 powi (e - 52) = real_of_int k" by blast
  then have "real_of_int k * 2 powi (e - 52) = real_of_int p" by (simp add: field_simps)
  then show ?thesis by (simp add: round_magnitude_def u k)
qed

lemma to_double_of_int:
  assumes "\<bar>p\<bar> \<le> 2 ^ 53"
  shows "to_double (real_of_int p) = Num (real_of_int p)"
proof (cases "p = 0")
  case True
  then show ?thesis by (simp add: to_double_def)
next
  case False
  then have a: "0 < \<bar>p\<bar>" by simp
  have r: "round_magnitude \<bar>real_of_int p\<bar> = \<bar>real_of_int p\<bar>"
    using round_magnitude_of_int [OF a assms] by simp
  have "\<bar>real_of_int p\<bar> \<le> 2 ^ 53"
    using of_int_ge_numeral_power(2) [OF assms] by simp
  also have "\<dots> < (2::real) ^ 1024" by simp
  finally have "\<not> 2 ^ 1024 \<le> \<bar>real_of_int p\<bar>" by simp
  then show ?thesis using False r by (simp add: to_double_def sgn_real_def abs_if)
qed

text \<open>Unfolding these evaluates the arithmetic of doubles at a concrete number.\<close>

lemmas double_eval =
  to_double_def round_magnitude_def ulp_def exponent_def round_half_even_def compute_bitlen
  Number_def scale_price_def gwei_limit_def toBigInt_def Let_def

lemma to_double_at_least_one:
  assumes "1 \<le> m"
  shows "to_double m = PosInfinity \<or> (\<exists>r. to_double m = Num r \<and> 1 \<le> r)"
proof -
  have "round_magnitude (real_of_int 1) \<le> round_magnitude m"
    using assms by (intro round_magnitude_mono) simp_all
  then have "1 \<le> round_magnitude m"
    using round_magnitude_of_int [of 1] by simp
  then show ?thesis
    using assms by (simp add: to_double_def sgn_real_def abs_if)
qed

text \<open>
  Scaling a price between 0 and \<open>2\<^sup>5\<^sup>3\<close> by a factor of at least 1 does not lower it, when
  the conversion does not throw.
\<close>

lemma scale_price_nondecreasing:
  assumes p: "0 \<le> p" "p \<le> 2 ^ 53" and m: "1 \<le> m"
    and s: "scale_price p (to_double m) = Some g"
  shows "p \<le> g"
proof -
  have n: "Number p = Num (real_of_int p)"
    using p by (simp add: Number_def to_double_of_int)
  from to_double_at_least_one [OF m] s n obtain r where
    r: "to_double m = Num r" "1 \<le> r"
    by (auto simp: scale_price_def split: if_splits)
  show ?thesis
  proof (cases "p = 0")
    case True
    then have "g = 0"
      using s n r by (simp add: scale_price_def to_double_def toBigInt_def)
    with True show ?thesis by simp
  next
    case False
    with p have pos: "0 < p" by simp
    have le: "real_of_int p \<le> real_of_int p * r"
      using r(2) pos by simp
    have "round_magnitude (real_of_int p) \<le> round_magnitude (real_of_int p * r)"
      using pos le by (intro round_magnitude_mono) simp_all
    then have rm: "real_of_int p \<le> round_magnitude (real_of_int p * r)"
      using round_magnitude_of_int [OF pos p(2)] by simp
    have x: "0 < real_of_int p * r" using pos r(2) by simp
    from s n r x have "g = \<lfloor>round_magnitude (real_of_int p * r)\<rfloor>"
      by (auto simp: scale_price_def to_double_def toBigInt_def sgn_real_def abs_if
          split: if_splits)
    then show ?thesis using rm by (simp add: le_floor_iff)
  qed
qed

section \<open>The accuracy of a scaled price\<close>

lemma exponent_nonneg:
  assumes "1 \<le> x"
  shows "0 \<le> exponent x"
proof -
  have "0 < \<lfloor>\<bar>x\<bar>\<rfloor>" using assms by simp
  then have "1 \<le> bitlen \<lfloor>\<bar>x\<bar>\<rfloor>" by (rule bitlen_pos)
  then show ?thesis using assms by (simp add: exponent_def)
qed

lemma round_magnitude_near:
  assumes "0 < x" and "- 1022 \<le> exponent x"
  shows "\<bar>round_magnitude x - x\<bar> \<le> x / 2 ^ 53"
proof -
  define e where "e = exponent x"
  define u where "u = ulp x"
  define k where "k = round_half_even (x / u)"
  have u: "u = 2 powi (e - 52)" using assms(2) by (simp add: ulp_def e_def u_def max_def)
  have up: "0 < u" by (simp add: u_def ulp_pos)
  have "2 powi e \<le> x" using exponent_bounds(1) [of x] assms by (simp add: e_def)
  then have "2 ^ 52 * u \<le> x"
    unfolding u by (simp only: powi_split(2) [symmetric])
  then have ux: "u / 2 \<le> x / 2 ^ 53" by simp
  have "\<bar>real_of_int k - x / u\<bar> \<le> 1 / 2"
    unfolding k_def by (rule round_half_even_near)
  then have "\<bar>real_of_int k - x / u\<bar> * u \<le> 1 / 2 * u"
    using up by (intro mult_right_mono) simp_all
  moreover have "\<bar>real_of_int k - x / u\<bar> * u = \<bar>(real_of_int k - x / u) * u\<bar>"
    using up by (simp add: abs_mult)
  moreover have "(real_of_int k - x / u) * u = real_of_int k * u - x"
    using up by (simp add: field_simps)
  ultimately have "\<bar>real_of_int k * u - x\<bar> \<le> u / 2" by simp
  then have "\<bar>round_magnitude x - x\<bar> \<le> u / 2"
    by (simp add: round_magnitude_def k_def u_def)
  then show ?thesis using ux by linarith
qed

lemma round_magnitude_ge_one:
  assumes "1 \<le> x"
  shows "1 \<le> round_magnitude x"
proof -
  have "round_magnitude (real_of_int 1) \<le> round_magnitude x"
    using assms by (intro round_magnitude_mono) simp_all
  then show ?thesis using round_magnitude_of_int [of 1] by simp
qed

lemma to_double_positive:
  "0 < x \<Longrightarrow> to_double x = PosInfinity \<or> to_double x = Num (round_magnitude x)"
  by (simp add: to_double_def sgn_real_def abs_if)

lemma near_bounds:
  assumes "\<bar>y - x\<bar> \<le> (x::real) / 2 ^ 53"
  shows "y \<le> x * (1 + 1 / 2 ^ 53)" and "x * (1 - 1 / 2 ^ 53) \<le> y"
proof -
  define c where "c = x / 2 ^ 53"
  have u: "x * (1 + 1 / 2 ^ 53) = x + c" and l: "x * (1 - 1 / 2 ^ 53) = x - c"
    by (simp_all add: c_def algebra_simps)
  have "\<bar>y - x\<bar> \<le> c" using assms by (simp only: c_def)
  then have "y \<le> x + c" and "x - c \<le> y" by linarith+
  then show "y \<le> x * (1 + 1 / 2 ^ 53)" and "x * (1 - 1 / 2 ^ 53) \<le> y"
    by (simp_all only: u l)
qed

lemma cube_bounds:
  "(1 + 1 / 2 ^ 53) * (1 + 1 / 2 ^ 53) * (1 + 1 / 2 ^ 53) \<le> (1 + 1 / 2 ^ 51 :: real)"
  "(1 - 1 / 2 ^ 51 :: real) \<le> (1 - 1 / 2 ^ 53) * (1 - 1 / 2 ^ 53) * (1 - 1 / 2 ^ 53)"
  by simp_all

text \<open>
  A positive price scaled by a factor of at least 1 is the exact product up to three
  roundings to a double and one to a whole number of wei.
\<close>

lemma scale_price_near:
  assumes p: "0 < p" and m: "1 \<le> m"
    and s: "scale_price p (to_double m) = Some g"
  shows "\<bar>real_of_int g - real_of_int p * m\<bar> < 1 + real_of_int p * m / 2 ^ 51"
proof -
  define P where "P = real_of_int p"
  define pd where "pd = round_magnitude P"
  define md where "md = round_magnitude m"
  define x where "x = pd * md"
  define d where "d = round_magnitude x"
  define a :: real where "a = 1 + 1 / 2 ^ 53"
  define b :: real where "b = 1 - 1 / 2 ^ 53"
  have P1: "1 \<le> P" using p by (simp add: P_def)
  have pd1: "1 \<le> pd" unfolding pd_def using P1 by (rule round_magnitude_ge_one)
  have md1: "1 \<le> md" unfolding md_def using m by (rule round_magnitude_ge_one)
  have x1: "1 \<le> x" unfolding x_def using mult_mono [of 1 pd 1 md] pd1 md1 by simp
  have tp: "to_double P = PosInfinity \<or> to_double P = Num pd"
    unfolding pd_def using P1 by (intro to_double_positive) simp
  have tm: "to_double m = PosInfinity \<or> to_double m = Num md"
    unfolding md_def using m by (intro to_double_positive) simp
  have tx: "to_double x = PosInfinity \<or> to_double x = Num d"
    unfolding d_def using x1 by (intro to_double_positive) simp
  have s': "BigInt (js_floor (js_mul (to_double P) (to_double m))) = Some g"
    using s by (simp add: scale_price_def Number_def P_def)
  have fp: "to_double P = Num pd"
    using tp tm s' pd1 md1 by (auto split: if_splits)
  have fm: "to_double m = Num md"
    using tp tm s' pd1 md1 by (auto simp: fp split: if_splits)
  have fx: "to_double x = Num d"
    using tx s' by (auto simp: fp fm x_def)
  have g: "g = \<lfloor>d\<rfloor>"
    using s' by (simp add: fp fm fx x_def [symmetric] toBigInt_def)
  have np: "\<bar>pd - P\<bar> \<le> P / 2 ^ 53"
    unfolding pd_def using P1 exponent_nonneg [OF P1] by (intro round_magnitude_near) simp_all
  have nm: "\<bar>md - m\<bar> \<le> m / 2 ^ 53"
    unfolding md_def using m exponent_nonneg [OF m] by (intro round_magnitude_near) simp_all
  have nx: "\<bar>d - x\<bar> \<le> x / 2 ^ 53"
    unfolding d_def using x1 exponent_nonneg [OF x1] by (intro round_magnitude_near) simp_all
  have a0: "0 \<le> a" and b0: "0 \<le> b" by (simp_all add: a_def b_def)
  have pu: "pd \<le> P * a" and pl: "P * b \<le> pd"
    unfolding a_def b_def using near_bounds [OF np] by blast+
  have mu: "md \<le> m * a" and ml: "m * b \<le> md"
    unfolding a_def b_def using near_bounds [OF nm] by blast+
  have du: "d \<le> x * a" and dl: "x * b \<le> d"
    unfolding a_def b_def using near_bounds [OF nx] by blast+
  have Pm: "0 \<le> P * m" using P1 m by simp
  have "x \<le> (P * a) * (m * a)"
    unfolding x_def using pu mu P1 a0 md1 by (intro mult_mono) simp_all
  then have "x * a \<le> (P * a) * (m * a) * a"
    using a0 by (rule mult_right_mono)
  with du have "d \<le> (P * m) * (a * a * a)" by (simp add: mult_ac)
  also have "\<dots> \<le> (P * m) * (1 + 1 / 2 ^ 51)"
    using Pm cube_bounds(1) unfolding a_def by (rule mult_left_mono [rotated])
  finally have upper: "d \<le> P * m + P * m / 2 ^ 51" by (simp add: algebra_simps)
  have "(P * b) * (m * b) \<le> x"
    unfolding x_def using pl ml P1 m b0 pd1 by (intro mult_mono) simp_all
  then have "(P * b) * (m * b) * b \<le> x * b"
    using b0 by (rule mult_right_mono)
  with dl have "(P * m) * (b * b * b) \<le> d" by (simp add: mult_ac)
  moreover have "(P * m) * (1 - 1 / 2 ^ 51) \<le> (P * m) * (b * b * b)"
    using Pm cube_bounds(2) unfolding b_def by (rule mult_left_mono [rotated])
  ultimately have lower: "P * m - P * m / 2 ^ 51 \<le> d" by (simp add: algebra_simps)
  have "real_of_int g \<le> d" and "d < real_of_int g + 1"
    unfolding g by linarith+
  with upper lower Pm show ?thesis
    unfolding P_def [symmetric] by (simp add: abs_less_iff) 
qed

section \<open>Properties of the fee recommendations\<close>

lemma foldl_add_sum_list:
  "foldl (\<lambda>s d. s + f d) a xs = a + sum_list (map f xs)" for a :: real
  by (induction xs arbitrary: a) simp_all

lemma toBigInt_of_int: "toBigInt (real_of_int k) = Some k"
  by (simp add: toBigInt_def)

lemma toBigInt_numeral [simp]: "toBigInt (numeral n) = Some (numeral n)"
  using toBigInt_of_int [of "numeral n"] by simp

lemma sqrt_variance_volatile: "sqrt 2890000000000000000 = 1700000000"
  by (rule real_sqrt_unique) simp_all

lemma getNetworkCongestion_few_samples:
  "length h < 10 \<Longrightarrow> getNetworkCongestion h = Num 0.5"
  by (simp add: getNetworkCongestion_def)

lemma getNetworkCongestion_volatile: "getNetworkCongestion volatile_history = Num 0.85"
  by (simp add: getNetworkCongestion_def volatile_history_def slice_last_def Let_def
      sample_def js_div_def sqrt_variance_volatile)

text \<open>
  With ten samples or more, no negative gas price and a positive one among the last ten,
  the congestion score is a number between 0 and 1.
\<close>

lemma getNetworkCongestion_range:
  assumes len: "10 \<le> length h"
    and nonneg: "\<forall>d \<in> set (slice_last 10 h). 0 \<le> gpd_gasPrice d"
    and pos: "\<exists>d \<in> set (slice_last 10 h). 0 < gpd_gasPrice d"
  shows "\<exists>c. getNetworkCongestion h = Num c \<and> 0 \<le> c \<and> c \<le> 1"
proof -
  define r where "r = slice_last 10 h"
  define s where "s = sum_list (map (\<lambda>d. real_of_int (gpd_gasPrice d)) r)"
  have lr: "length r = 10"
    using len by (simp add: r_def slice_last_def)
  obtain d where d: "d \<in> set r" "0 < gpd_gasPrice d"
    using pos r_def by blast
  have "real_of_int (gpd_gasPrice d) \<le> s"
    unfolding s_def using d(1) nonneg[unfolded r_def[symmetric]]
    by (intro member_le_sum_list) auto
  then have spos: "0 < s"
    using d(2) by linarith
  define avg where "avg = s / real (length r)"
  have avgpos: "0 < avg"
    using spos lr by (simp add: avg_def)
  define var where
    "var = sum_list (map (\<lambda>d. (real_of_int (gpd_gasPrice d) - avg)\<^sup>2) r) / real (length r)"
  have "0 \<le> sum_list (map (\<lambda>d. (real_of_int (gpd_gasPrice d) - avg)\<^sup>2) r)"
    by (intro sum_list_nonneg) auto
  then have varnn: "0 \<le> var"
    by (simp add: var_def)
  have eq: "getNetworkCongestion h = js_min (js_times (js_div (sqrt var) avg) 2) 1"
    using len
    by (simp add: getNetworkCongestion_def Let_def foldl_add_sum_list r_def[symmetric]
        s_def[symmetric] avg_def[symmetric] var_def[symmetric])
  have "js_div (sqrt var) avg = Num (sqrt var / avg)"
    using avgpos by (simp add: js_div_def)
  then have "getNetworkCongestion h = Num (min (sqrt var / avg * 2) 1)"
    using eq by simp
  moreover have "0 \<le> min (sqrt var / avg * 2) 1"
    using varnn avgpos by simp
  ultimately show ?thesis by auto
qed




text \<open>
  C3 fails on the code: when the last ten samples all carry the gas price zero, the mean
  is zero, the division is \<open>0 / 0\<close>, and the congestion score is NaN, which is not a
  number between 0 and 1.
\<close>

theorem getNetworkCongestion_zero_prices: "getNetworkCongestion zero_history = NaN"
  by (simp add: getNetworkCongestion_def zero_history_def slice_last_def Let_def
      foldl_add_sum_list js_div_def sample_def sum_list_replicate)

text \<open>
  C9, as the code has it. With congestion 0.85 and limits of 1 and 20 gwei, a base
  recommendation of 5 gwei gives the launch price 9750000000: the urgency multiplier
  1.5 times the congestion multiplier 1.3, and no second base band multiplier, which
  is part of the base recommendation already. The price 14625000000 belongs to a network
  price of 5 gwei recommended with the buffer factor 1.
\<close>

theorem getUrgentGasPrice_launch_scenario:
  assumes "getNetworkCongestion h = Num 0.85"
    and "maxGasPrice cfg = 20" and "minGasPrice cfg = 1"
  shows "(getOptimalGasPrice cfg h fd = 5000000000
            \<longrightarrow> getUrgentGasPrice cfg h fd LAUNCH = 9750000000)
         \<and> (enabled cfg \<and> gasPriceBuffer cfg = 1 \<and> fd = fee_reading 5000000000
            \<longrightarrow> getUrgentGasPrice cfg h fd LAUNCH = 14625000000)"
  using assms
  by (simp add: getUrgentGasPrice_def getOptimalGasPrice_def calculateOptimalGasPrice_def
      fee_reading_def or_zero_def double_eval)

theorem getUrgentGasPrice_launch_scenario_witness:
  "getNetworkCongestion volatile_history = Num 0.85
   \<and> maxGasPrice disabled_gas_config = 20 \<and> minGasPrice disabled_gas_config = 1
   \<and> getOptimalGasPrice disabled_gas_config volatile_history (fee_reading 5000000000)
       = 5000000000
   \<and> getUrgentGasPrice disabled_gas_config volatile_history (fee_reading 5000000000) LAUNCH
       = 9750000000
   \<and> maxGasPrice unbuffered_gas_config = 20 \<and> minGasPrice unbuffered_gas_config = 1
   \<and> enabled unbuffered_gas_config \<and> gasPriceBuffer unbuffered_gas_config = 1
   \<and> getUrgentGasPrice unbuffered_gas_config volatile_history (fee_reading 5000000000) LAUNCH
       = 14625000000"
proof -
  have d: "maxGasPrice disabled_gas_config = 20" "minGasPrice disabled_gas_config = 1"
    by (simp_all add: disabled_gas_config_def default_gas_config_def)
  have u: "maxGasPrice unbuffered_gas_config = 20" "minGasPrice unbuffered_gas_config = 1"
    "enabled unbuffered_gas_config" "gasPriceBuffer unbuffered_gas_config = 1"
    by (simp_all add: unbuffered_gas_config_def default_gas_config_def)
  have b: "getOptimalGasPrice disabled_gas_config volatile_history (fee_reading 5000000000)
             = 5000000000"
    by (simp add: getOptimalGasPrice_def disabled_gas_config_def default_gas_config_def
        fee_reading_def or_zero_def)
  show ?thesis
    using getUrgentGasPrice_launch_scenario [OF getNetworkCongestion_volatile d,
        of "fee_reading 5000000000"]
      getUrgentGasPrice_launch_scenario [OF getNetworkCongestion_volatile u(1,2),
        of "fee_reading 5000000000"]
      getNetworkCongestion_volatile d u b
    by simp
qed

text \<open>
  C9 as stated fails: the base recommendation is 5 gwei, the congestion is 0.85, the limits
  are 1 and 20 gwei, and the launch price is not 14625000000.
\<close>

theorem getUrgentGasPrice_launch_counterexample:
  "getOptimalGasPrice disabled_gas_config volatile_history (fee_reading 5000000000)
     = 5000000000
   \<and> getNetworkCongestion volatile_history = Num 0.85
   \<and> toBigInt (minGasPrice disabled_gas_config * 1000000000) = Some 1000000000
   \<and> toBigInt (maxGasPrice disabled_gas_config * 1000000000) = Some 20000000000
   \<and> getUrgentGasPrice disabled_gas_config volatile_history (fee_reading 5000000000) LAUNCH
       \<noteq> 14625000000"
  by (simp add: getUrgentGasPrice_def getNetworkCongestion_volatile getOptimalGasPrice_def
      disabled_gas_config_def default_gas_config_def fee_reading_def or_zero_def
      double_eval)

section \<open>Properties of the batch processor\<close>

subsection \<open>One transaction\<close>

lemma executeTransaction_keeps:
  assumes "executeTransaction world sent tx = (sent', tx', r)"
  shows "sent' = sent @ [tx_id tx]" and "tx_id tx' = tx_id tx"
    and "tx_retryCount tx' = tx_retryCount tx" and "tx_gasPrice tx' = tx_gasPrice tx"
    and "tx_priorityFee tx' = tx_priorityFee tx"
  using assms
  by (auto simp: executeTransaction_def split: send_outcome.splits if_splits)

lemma retryTransaction_conj:
  assumes "retryTransaction cfg world sent tx = (sent', tx')"
  shows "(sent' = sent @ [tx_id tx] \<or> sent' = sent) \<and> tx_id tx' = tx_id tx
        \<and> tx_retryCount tx' = tx_retryCount tx + 1
        \<and> tx_gasPrice tx' =
           (case scale_price (tx_gasPrice tx) (to_double (gasPriceIncrement cfg)) of
              None \<Rightarrow> tx_gasPrice tx
            | Some g \<Rightarrow> g)
        \<and> terminal (tx_status tx')"
proof -
  define tx1 where "tx1 = tx\<lparr>tx_retryCount := tx_retryCount tx + 1, tx_status := RETRY\<rparr>"
  show ?thesis
  proof (cases "scale_price (tx_gasPrice tx) (to_double (gasPriceIncrement cfg))")
    case None
    then have "sent' = sent" "tx' = tx1\<lparr>tx_status := FAILED\<rparr>"
      using assms by (simp_all add: retryTransaction_def Let_def tx1_def)
    then show ?thesis
      using None by (simp add: tx1_def terminal_def)
  next
    case (Some g)
    define tx2 where "tx2 = tx1\<lparr>tx_gasPrice := g\<rparr>"
    show ?thesis
    proof (cases "scale_price (tx_priorityFee tx) (to_double (priorityFeeIncrement cfg))")
      case None
      then have "sent' = sent" "tx' = tx2\<lparr>tx_status := FAILED\<rparr>"
        using assms Some by (simp_all add: retryTransaction_def Let_def tx1_def tx2_def)
      then show ?thesis
        using Some by (simp add: tx1_def tx2_def terminal_def)
    next
      case f: (Some f)
      obtain s3 tx3 r where e:
        "executeTransaction world sent (tx2\<lparr>tx_priorityFee := f\<rparr>) = (s3, tx3, r)"
        by (metis prod_cases3)
      note k = executeTransaction_keeps [OF e]
      have r: "sent' = s3"
        "tx' = (if er_success r then tx3\<lparr>tx_status := CONFIRMED, tx_txHash := er_txHash r,
                          tx_blockNumber := er_blockNumber r,
                          tx_gasUsed := er_gasUsed r\<rparr> else tx3\<lparr>tx_status := FAILED\<rparr>)"
        using assms Some f e
        by (auto simp: retryTransaction_def Let_def tx1_def tx2_def split: if_splits)
      show ?thesis
        using r k Some by (simp add: tx1_def tx2_def terminal_def)
    qed
  qed
qed

lemma retryTransaction_effect:
  assumes "retryTransaction cfg world sent tx = (sent', tx')"
  shows "sent' = sent @ [tx_id tx] \<or> sent' = sent" and "tx_id tx' = tx_id tx"
    and "tx_retryCount tx' = tx_retryCount tx + 1"
    and "tx_gasPrice tx' =
           (case scale_price (tx_gasPrice tx) (to_double (gasPriceIncrement cfg)) of
              None \<Rightarrow> tx_gasPrice tx
            | Some g \<Rightarrow> g)"
    and "terminal (tx_status tx')"
  using retryTransaction_conj [OF assms] by simp_all

lemma process_transaction_effect:
  assumes "process_transaction cfg world (sent, acc) tx = ((sent', acc'), tx')"
  shows "terminal (tx_status tx')" and "tx_id tx' = tx_id tx"
    and "sent' = sent @ [tx_id tx] \<or> sent' = sent @ [tx_id tx, tx_id tx]"
    and "tx_retryCount tx' = tx_retryCount tx
         \<or> (tx_retryCount tx < retryAttempts cfg \<and> tx_retryCount tx' = tx_retryCount tx + 1)"
    and "successfulTxs acc' + failedTxs acc' = successfulTxs acc + failedTxs acc + 1"
proof -
  obtain s1 tx1 r where e: "executeTransaction world sent tx = (s1, tx1, r)"
    by (cases "executeTransaction world sent tx") auto
  note k = executeTransaction_keeps [OF e]
  obtain s2 tx3 where rt: "retryTransaction cfg world s1 (tx1\<lparr>tx_status := FAILED\<rparr>) = (s2, tx3)"
    by (cases "retryTransaction cfg world s1 (tx1\<lparr>tx_status := FAILED\<rparr>)") auto
  note q = retryTransaction_effect [OF rt]
  have c: "(er_success r \<and> sent' = s1 \<and> tx' = tx1\<lparr>tx_status := CONFIRMED, tx_txHash := er_txHash r,
                    tx_blockNumber := er_blockNumber r, tx_gasUsed := er_gasUsed r\<rparr>
             \<and> successfulTxs acc' = successfulTxs acc + 1 \<and> failedTxs acc' = failedTxs acc)
         \<or> (\<not> er_success r \<and> tx_retryCount tx < retryAttempts cfg \<and> sent' = s2 \<and> tx' = tx3
             \<and> successfulTxs acc' = successfulTxs acc \<and> failedTxs acc' = failedTxs acc + 1)
         \<or> (\<not> er_success r \<and> \<not> tx_retryCount tx < retryAttempts cfg \<and> sent' = s1
             \<and> tx' = tx1\<lparr>tx_status := FAILED\<rparr>
             \<and> successfulTxs acc' = successfulTxs acc \<and> failedTxs acc' = failedTxs acc + 1)"
    using assms e rt k(3) by (auto simp: process_transaction_def Let_def split: if_splits)
  show "terminal (tx_status tx')" using c q(5) by (auto simp: terminal_def)
  show "tx_id tx' = tx_id tx" using c q(2) k(2) by auto
  show "sent' = sent @ [tx_id tx] \<or> sent' = sent @ [tx_id tx, tx_id tx]"
    using c q(1) k(1,2) by auto
  show "tx_retryCount tx' = tx_retryCount tx
         \<or> (tx_retryCount tx < retryAttempts cfg \<and> tx_retryCount tx' = tx_retryCount tx + 1)"
    using c q(3) k(3) by auto
  show "successfulTxs acc' + failedTxs acc' = successfulTxs acc + failedTxs acc + 1"
    using c by auto
qed

lemma process_transactions_effect:
  "process_transactions cfg world (sent, acc) txs = ((sent', acc'), txs') \<Longrightarrow>
     map tx_id txs' = map tx_id txs \<and> (\<forall>t \<in> set txs'. terminal (tx_status t))
     \<and> (\<exists>ex. sent' = sent @ ex \<and> set ex = set (map tx_id txs))"
proof (induction txs arbitrary: sent acc sent' acc' txs')
  case Nil
  then show ?case by simp
next
  case (Cons tx txs)
  obtain s1 a1 tx1 where p: "process_transaction cfg world (sent, acc) tx = ((s1, a1), tx1)"
    by (metis surj_pair)
  obtain s2 a2 rest where ps: "process_transactions cfg world (s1, a1) txs = ((s2, a2), rest)"
    by (metis surj_pair)
  have r: "sent' = s2" "txs' = tx1 # rest"
    using Cons.prems p ps by auto
  note e = process_transaction_effect [OF p]
  from Cons.IH [OF ps] obtain ex where ih: "map tx_id rest = map tx_id txs"
    "\<forall>t \<in> set rest. terminal (tx_status t)" "s2 = s1 @ ex" "set ex = set (map tx_id txs)"
    by blast
  from e(3) obtain ex0 where ex0: "s1 = sent @ ex0" "set ex0 = {tx_id tx}"
    by (elim disjE) auto
  have "sent' = sent @ (ex0 @ ex)" "set (ex0 @ ex) = set (map tx_id (tx # txs))"
    using r ih ex0 by auto
  then have "\<exists>ex. sent' = sent @ ex \<and> set ex = set (map tx_id (tx # txs))" by blast
  then show ?case using r ih e by simp
qed

lemma processTransactionBatch_effect:
  assumes "processTransactionBatch cfg world sent txs = (sent', txs', v)"
  shows "map tx_id txs' = map tx_id txs \<and> (\<forall>t \<in> set txs'. terminal (tx_status t))
     \<and> (\<exists>ex. sent' = sent @ ex \<and> set ex = set (map tx_id txs))"
proof -
  obtain s a r where ps: "process_transactions cfg world (sent, zero_counts) txs = ((s, a), r)"
    by (metis surj_pair)
  then have "sent' = s" "txs' = r"
    using assms by (auto simp: processTransactionBatch_def)
  then show ?thesis using process_transactions_effect [OF ps] by simp
qed

subsection \<open>The two loops\<close>

lemma settles_Nil: "settles sent [] (sent, [], r)"
  by (simp add: settles_def)

lemma settles_append:
  assumes "settles s0 xs (s1, xs', r1)" and "settles s1 ys (s2, ys', r2)"
  shows "settles s0 (xs @ ys) (s2, xs' @ ys', r)"
proof -
  from assms obtain e1 e2 where "s1 = s0 @ e1" "set e1 = set (map tx_id xs)"
    "s2 = s1 @ e2" "set e2 = set (map tx_id ys)"
    unfolding settles_def by auto
  then have "s2 = s0 @ (e1 @ e2)" "set (e1 @ e2) = set (map tx_id (xs @ ys))" by auto
  then have "\<exists>ex. s2 = s0 @ ex \<and> set ex = set (map tx_id (xs @ ys))" by blast
  then show ?thesis using assms unfolding settles_def by auto
qed

lemma slice_append_drop: "slice xs a (a + n) @ drop (a + n) xs = drop a xs"
proof -
  have "take n (drop a xs) @ drop n (drop a xs) = drop a xs"
    by (rule append_take_drop_id)
  then show ?thesis by (simp add: slice_def add.commute)
qed

text \<open>Partial correctness of the loops goes by fixpoint induction, with the equation consumed.\<close>

lemmas dispatch_batches_induct =
  dispatch_batches.raw_induct [rotated 1, consumes 1, case_names step]

lemmas group_loop_induct =
  group_loop.raw_induct [rotated 1, consumes 1, case_names step]

lemma dispatch_batches_settles:
  "dispatch_batches cfg world g j sent = Some y \<Longrightarrow> settles sent (drop j g) y"
proof (induction rule: dispatch_batches_induct)
  case (step dispatch cfg world g j sent y)
  show ?case
  proof (cases "j < length g")
    case False
    then have "drop j g = []" by simp
    moreover have "y = (sent, [], [])" using False step(2) by simp
    ultimately show ?thesis by (simp add: settles_Nil)
  next
    case True
    obtain s1 b' v where pb:
      "processTransactionBatch cfg world sent (slice g j (j + maxBatchSize cfg)) = (s1, b', v)"
      by (metis prod_cases3)
    with True step(2) obtain s2 rest' rs where
      d: "dispatch cfg world g (j + maxBatchSize cfg) s1 = Some (s2, rest', rs)"
      and r: "y = (s2, b' @ rest', Fulfilled v # rs)"
      by (auto simp: bind_eq_Some_conv)
    have a: "settles sent (slice g j (j + maxBatchSize cfg)) (s1, b', v)"
      using processTransactionBatch_effect [OF pb] by (simp add: settles_def)
    have b: "settles s1 (drop (j + maxBatchSize cfg) g) (s2, rest', rs)"
      using step(1) [OF d] .
    show ?thesis
      using settles_append [OF a b] r by (simp add: slice_append_drop)
  qed
qed

lemma dispatch_batches_total:
  "0 < maxBatchSize cfg \<Longrightarrow> \<exists>r. dispatch_batches cfg world g j sent = Some r"
proof (induction "length g - j" arbitrary: j sent rule: less_induct)
  case less
  show ?case
  proof (cases "j < length g")
    case False
    then show ?thesis by (subst dispatch_batches.simps) simp
  next
    case True
    obtain s1 b' v where pb:
      "processTransactionBatch cfg world sent (slice g j (j + maxBatchSize cfg)) = (s1, b', v)"
      by (metis prod_cases3)
    have "length g - (j + maxBatchSize cfg) < length g - j"
      using True less.prems by simp
    from less.hyps [OF this less.prems] obtain r where
      "dispatch_batches cfg world g (j + maxBatchSize cfg) s1 = Some r" by blast
    then show ?thesis
      using True pb by (subst dispatch_batches.simps) (auto split: prod.splits)
  qed
qed

lemma group_loop_settles:
  "group_loop cfg world txs i sent acc = Some y \<Longrightarrow> settles sent (drop i txs) y"
proof (induction rule: group_loop_induct)
  case (step loop cfg world txs i sent acc y)
  show ?case
  proof (cases "i < length txs")
    case False
    then have "drop i txs = []" by simp
    moreover have "y = (sent, [], acc)" using False step(2) by simp
    ultimately show ?thesis by (simp add: settles_Nil)
  next
    case True
    define step where "step = maxBatchSize cfg * parallelBatches cfg"
    from True step(2) obtain s1 g' rs s2 rest' a2 where
      d: "dispatch_batches cfg world (slice txs i (i + step)) 0 sent = Some (s1, g', rs)"
      and l: "loop cfg world txs (i + step) s1 (accumulate_results (maxBatchSize cfg) acc rs)
                = Some (s2, rest', a2)"
      and r: "y = (s2, g' @ rest', a2)"
      by (auto simp: bind_eq_Some_conv step_def)
    have a: "settles sent (slice txs i (i + step)) (s1, g', rs)"
      using dispatch_batches_settles [OF d] by simp
    have b: "settles s1 (drop (i + step) txs) (s2, rest', a2)"
      using step(1) [OF l] .
    show ?thesis
      using settles_append [OF a b] r by (simp add: slice_append_drop)
  qed
qed

lemma group_loop_total:
  assumes "0 < maxBatchSize cfg" and "0 < parallelBatches cfg"
  shows "\<exists>r. group_loop cfg world txs i sent acc = Some r"
proof (induction "length txs - i" arbitrary: i sent acc rule: less_induct)
  case less
  show ?case
  proof (cases "i < length txs")
    case False
    then show ?thesis by (subst group_loop.simps) simp
  next
    case True
    define step where "step = maxBatchSize cfg * parallelBatches cfg"
    have sp: "0 < step" using assms by (simp add: step_def)
    obtain s1 g' rs where
      d: "dispatch_batches cfg world (slice txs i (i + step)) 0 sent = Some (s1, g', rs)"
      using dispatch_batches_total [OF assms(1)] by (metis prod_cases3)
    have "length txs - (i + step) < length txs - i"
      using True sp by simp
    from less.hyps [OF this] obtain r where
      "group_loop cfg world txs (i + step) s1 (accumulate_results (maxBatchSize cfg) acc rs) = Some r"
      by blast
    then show ?thesis
      using True d by (subst group_loop.simps) (auto simp: step_def split: prod.splits)
  qed
qed
lemma dispatch_batches_done:
  "\<not> j < length g \<Longrightarrow> dispatch_batches cfg world g j sent = Some (sent, [], [])"
  by (subst dispatch_batches.simps) simp

lemma dispatch_batches_step:
  assumes "j < length g"
    and "processTransactionBatch cfg world sent (slice g j (j + maxBatchSize cfg)) = (s1, b', v)"
    and "dispatch_batches cfg world g (j + maxBatchSize cfg) s1 = Some (s2, rest', rs)"
  shows "dispatch_batches cfg world g j sent = Some (s2, b' @ rest', Fulfilled v # rs)"
  using assms by (subst dispatch_batches.simps) simp

lemma group_loop_done:
  "\<not> i < length txs \<Longrightarrow> group_loop cfg world txs i sent acc = Some (sent, [], acc)"
  by (subst group_loop.simps) simp

lemma group_loop_step:
  assumes "i < length txs"
    and "dispatch_batches cfg world
           (slice txs i (i + maxBatchSize cfg * parallelBatches cfg)) 0 sent = Some (s1, g', rs)"
    and "group_loop cfg world txs (i + maxBatchSize cfg * parallelBatches cfg) s1
           (accumulate_results (maxBatchSize cfg) acc rs) = Some (s2, rest', a2)"
  shows "group_loop cfg world txs i sent acc = Some (s2, g' @ rest', a2)"
  using assms by (subst group_loop.simps) simp

subsection \<open>A batch of one transaction that fails once\<close>

lemma validate_demo: "validateTransactions funded_provider [demo_tx ''a''] = [demo_tx ''a'']"
  by (simp add: validate_transaction_def funded_provider_def demo_tx_def or_zero_def Let_def)

lemma batch_demo:
  "processTransactionBatch default_batch_config fail_then_mine [] [demo_tx ''a'']
     = ([''a'', ''a''], [retried_tx], zero_counts\<lparr>failedTxs := 1\<rparr>)"
  by (simp add: processTransactionBatch_def process_transaction_def executeTransaction_def
      retryTransaction_def fail_then_mine_def demo_tx_def default_batch_config_def retried_tx_def
      exec_failure_def demo_receipt_def zero_counts_def double_eval)

lemma processBatch_demo:
  "processBatch default_batch_config funded_provider fail_then_mine [] [demo_tx ''a'']
     = Some (Inr ([''a'', ''a''],
         \<lparr>br_transactions = [retried_tx], br_successfulTxs = 0, br_failedTxs = 1,
          br_totalGasUsed = 0, br_totalGasPrice = 0, br_success = False\<rparr>))"
proof -
  let ?c = default_batch_config
  have sl: "slice [demo_tx ''a''] 0 (maxBatchSize ?c * parallelBatches ?c) = [demo_tx ''a'']"
    "slice [demo_tx ''a''] 0 (maxBatchSize ?c) = [demo_tx ''a'']"
    by (simp_all add: slice_def default_batch_config_def)
  have d2: "dispatch_batches ?c fail_then_mine [demo_tx ''a''] (0 + maxBatchSize ?c) [''a'', ''a'']
              = Some ([''a'', ''a''], [], [])"
    by (rule dispatch_batches_done) (simp add: default_batch_config_def)
  have d1: "dispatch_batches ?c fail_then_mine [demo_tx ''a''] 0 []
              = Some ([''a'', ''a''], [retried_tx] @ [], [Fulfilled (zero_counts\<lparr>failedTxs := 1\<rparr>)])"
    by (rule dispatch_batches_step [OF _ _ d2]) (simp_all add: sl batch_demo)
  have g2: "group_loop ?c fail_then_mine [demo_tx ''a''] (0 + maxBatchSize ?c * parallelBatches ?c)
              [''a'', ''a'']
              (accumulate_results (maxBatchSize ?c) zero_counts
                 [Fulfilled (zero_counts\<lparr>failedTxs := 1\<rparr>)])
              = Some ([''a'', ''a''], [],
                  accumulate_results (maxBatchSize ?c) zero_counts
                    [Fulfilled (zero_counts\<lparr>failedTxs := 1\<rparr>)])"
    by (rule group_loop_done) (simp add: default_batch_config_def)
  have g1: "group_loop ?c fail_then_mine [demo_tx ''a''] 0 [] zero_counts
              = Some ([''a'', ''a''], ([retried_tx] @ []) @ [],
                  accumulate_results (maxBatchSize ?c) zero_counts
                    [Fulfilled (zero_counts\<lparr>failedTxs := 1\<rparr>)])"
    by (rule group_loop_step [OF _ _ g2]) (simp_all add: sl d1)
  show ?thesis
    unfolding processBatch_def validate_demo Let_def processTransactionsInBatches_def g1
    by (simp add: zero_counts_def default_batch_config_def)
qed


text \<open>No batch of a group is ever rejected: every settled result is a fulfilled one.\<close>

lemma dispatch_batches_fulfilled:
  "dispatch_batches cfg world g j sent = Some y \<Longrightarrow> all_fulfilled y"
proof (induction rule: dispatch_batches_induct)
  case (step dispatch cfg world g j sent y)
  show ?case
  proof (cases "j < length g")
    case False
    then show ?thesis using step(2) by (auto simp: all_fulfilled_def)
  next
    case True
    obtain s1 b' v where pb:
      "processTransactionBatch cfg world sent (slice g j (j + maxBatchSize cfg)) = (s1, b', v)"
      by (metis prod_cases3)
    with True step(2) obtain s2 rest' rs where
      d: "dispatch cfg world g (j + maxBatchSize cfg) s1 = Some (s2, rest', rs)"
      and r: "y = (s2, b' @ rest', Fulfilled v # rs)"
      by (auto simp: bind_eq_Some_conv)
    from step(1) [OF d] r show ?thesis by (simp add: all_fulfilled_def)
  qed
qed

subsection \<open>Validation\<close>

lemma validate_transaction_passes:
  "validate_transaction prov t
     = (if passes_validation prov t then Some (assign_nonce prov t) else None)"
  by (auto simp: validate_transaction_def passes_validation_def fails_validation_def
      provider_reads_succeed_def assign_nonce_def Let_def split: option.splits)

lemma assign_nonce_id: "tx_id (assign_nonce prov t) = tx_id t"
  by (simp add: assign_nonce_def split: option.splits)

lemma validateTransactions_filter:
  "validateTransactions prov txs
     = map (assign_nonce prov) (filter (passes_validation prov) txs)"
  by (induction txs) (simp_all add: validate_transaction_passes)

lemma validateTransactions_ids:
  "map tx_id (validateTransactions prov txs)
     = map tx_id (filter (passes_validation prov) txs)"
  by (simp add: validateTransactions_filter assign_nonce_id comp_def)






text \<open>
  What \<^verbatim>\<open>processBatch\<close> does with a batch, in the terms of the validation: it throws when
  no transaction passes; otherwise, with positive sizes, it returns a result, and the
  sends it adds are for exactly the transactions that pass.
\<close>

lemma processBatch_effect:
  assumes "0 < maxBatchSize cfg" and "0 < parallelBatches cfg"
    and "filter (passes_validation prov) txs \<noteq> []"
  shows "\<exists>sent' result ex.
           processBatch cfg prov world sent txs = Some (Inr (sent', result))
           \<and> sent' = sent @ ex
           \<and> set ex = tx_id ` {t \<in> set txs. passes_validation prov t}
           \<and> map tx_id (br_transactions result)
               = map tx_id (filter (passes_validation prov) txs)"
proof -
  let ?valid = "validateTransactions prov txs"
  have ne: "?valid \<noteq> []"
    using assms(3) by (simp add: validateTransactions_filter)
  obtain s' txs' acc' where
    g: "group_loop cfg world ?valid 0 sent zero_counts = Some (s', txs', acc')"
    using group_loop_total [OF assms(1,2)] by (metis prod_cases3)
  from group_loop_settles [OF g] obtain ex where
    ids: "map tx_id txs' = map tx_id ?valid"
    and ex: "s' = sent @ ex" "set ex = set (map tx_id ?valid)"
    by (auto simp: settles_def)
  let ?result = "\<lparr>br_transactions = txs', br_successfulTxs = successfulTxs acc',
     br_failedTxs = failedTxs acc', br_totalGasUsed = totalGasUsed acc',
     br_totalGasPrice = totalGasPrice acc', br_success = (successfulTxs acc' > 0)\<rparr>"
  have p: "processBatch cfg prov world sent txs = Some (Inr (s', ?result))"
    using ne g by (simp add: processBatch_def processTransactionsInBatches_def)
  have se: "set ex = tx_id ` {t \<in> set txs. passes_validation prov t}"
    using ex(2) by (auto simp: validateTransactions_ids)
  show ?thesis
    using p ex(1) se ids by (auto simp: validateTransactions_ids)
qed

lemma processBatch_none_valid:
  "filter (passes_validation prov) txs = [] \<Longrightarrow>
   processBatch cfg prov world sent txs = Some (Inl NoValidTransactions)"
  by (simp add: processBatch_def validateTransactions_filter)

lemma processBatch_sends:
  assumes "processBatch cfg prov world sent txs = Some (Inr (sent', result))"
  shows "\<exists>ex. sent' = sent @ ex
           \<and> set ex = tx_id ` {t \<in> set txs. passes_validation prov t}"
proof -
  from assms obtain y where
    g: "group_loop cfg world (validateTransactions prov txs) 0 sent zero_counts = Some y"
    and r: "sent' = fst y"
    by (auto simp: processBatch_def processTransactionsInBatches_def Let_def
        split: if_splits option.splits)
  from group_loop_settles [OF g] r obtain ex where
    "sent' = sent @ ex" "set ex = set (map tx_id (validateTransactions prov txs))"
    by (auto simp: settles_def split: prod.splits)
  then show ?thesis by (auto simp: validateTransactions_ids)
qed




subsection \<open>Retries\<close>

text \<open>
  C6, as the code has it. A retry counts itself and leaves a terminal status. Its gas price
  is the old one times the increment, computed in doubles and rounded down, and stays the
  old one when that conversion throws. For a positive price and an increment of at least
  1 the new price differs from the exact product by less than 1 wei plus the product's
  \<open>2\<^sup>-\<^sup>5\<^sup>1\<close>-th part; for a price between 0 and \<open>2\<^sup>5\<^sup>3\<close> and an increment of at
  least 1 the price does not fall. Processing a transaction keeps a retry count that is
  within \<^verbatim>\<open>retryAttempts\<close> within it, and a transaction that fails with the retries used
  up is sent once, not retried, and left FAILED.
\<close>

theorem retryTransaction_escalates:
  "(retryTransaction cfg world sent tx = (sent', tx') \<longrightarrow>
      tx_retryCount tx' = tx_retryCount tx + 1
      \<and> (tx_status tx' = CONFIRMED \<or> tx_status tx' = FAILED)
      \<and> tx_gasPrice tx' =
           (case scale_price (tx_gasPrice tx) (to_double (gasPriceIncrement cfg)) of
              None \<Rightarrow> tx_gasPrice tx
            | Some g \<Rightarrow> g)
      \<and> (1 \<le> gasPriceIncrement cfg \<and> 0 < tx_gasPrice tx
           \<and> scale_price (tx_gasPrice tx) (to_double (gasPriceIncrement cfg)) \<noteq> None \<longrightarrow>
           \<bar>real_of_int (tx_gasPrice tx') - real_of_int (tx_gasPrice tx) * gasPriceIncrement cfg\<bar>
             < 1 + real_of_int (tx_gasPrice tx) * gasPriceIncrement cfg / 2 ^ 51)
      \<and> (1 \<le> gasPriceIncrement cfg \<and> 0 \<le> tx_gasPrice tx \<and> tx_gasPrice tx \<le> 2 ^ 53 \<longrightarrow>
           tx_gasPrice tx \<le> tx_gasPrice tx'))
   \<and> (process_transaction cfg world (s0, acc) t = ((s2, acc2), t2) \<longrightarrow>
       (tx_retryCount t \<le> retryAttempts cfg \<longrightarrow> tx_retryCount t2 \<le> retryAttempts cfg)
       \<and> (retryAttempts cfg \<le> tx_retryCount t
            \<and> \<not> er_success (snd (snd (executeTransaction world s0 t)))
          \<longrightarrow> tx_status t2 = FAILED \<and> tx_retryCount t2 = tx_retryCount t
              \<and> s2 = s0 @ [tx_id t]))"
proof (intro conjI impI)
  assume r: "retryTransaction cfg world sent tx = (sent', tx')"
  note e = retryTransaction_effect [OF r]
  show "tx_retryCount tx' = tx_retryCount tx + 1" by (rule e(3))
  show "tx_status tx' = CONFIRMED \<or> tx_status tx' = FAILED"
    using e(5) by (simp add: terminal_def)
  show "tx_gasPrice tx' =
           (case scale_price (tx_gasPrice tx) (to_double (gasPriceIncrement cfg)) of
              None \<Rightarrow> tx_gasPrice tx
            | Some g \<Rightarrow> g)"
    by (rule e(4))
  show "\<bar>real_of_int (tx_gasPrice tx') - real_of_int (tx_gasPrice tx) * gasPriceIncrement cfg\<bar>
             < 1 + real_of_int (tx_gasPrice tx) * gasPriceIncrement cfg / 2 ^ 51"
    if a: "1 \<le> gasPriceIncrement cfg \<and> 0 < tx_gasPrice tx
           \<and> scale_price (tx_gasPrice tx) (to_double (gasPriceIncrement cfg)) \<noteq> None"
  proof -
    from a obtain g where
      g: "scale_price (tx_gasPrice tx) (to_double (gasPriceIncrement cfg)) = Some g"
      by auto
    then have "tx_gasPrice tx' = g" using e(4) by simp
    then show ?thesis using scale_price_near [OF _ _ g] a by simp
  qed
  show "tx_gasPrice tx \<le> tx_gasPrice tx'"
    if a: "1 \<le> gasPriceIncrement cfg \<and> 0 \<le> tx_gasPrice tx \<and> tx_gasPrice tx \<le> 2 ^ 53"
  proof (cases "scale_price (tx_gasPrice tx) (to_double (gasPriceIncrement cfg))")
    case None
    then show ?thesis using e(4) by simp
  next
    case (Some g)
    then have "tx_gasPrice tx' = g" using e(4) by simp
    then show ?thesis using scale_price_nondecreasing [OF _ _ _ Some] a by simp
  qed
next
  assume p: "process_transaction cfg world (s0, acc) t = ((s2, acc2), t2)"
  note e = process_transaction_effect [OF p]
  show "tx_retryCount t2 \<le> retryAttempts cfg" if "tx_retryCount t \<le> retryAttempts cfg"
    using e(4) that by auto
  assume x: "retryAttempts cfg \<le> tx_retryCount t
             \<and> \<not> er_success (snd (snd (executeTransaction world s0 t)))"
  obtain s1 t1 r where ex: "executeTransaction world s0 t = (s1, t1, r)"
    by (metis prod_cases3)
  note k = executeTransaction_keeps [OF ex]
  have "s2 = s1 \<and> t2 = t1\<lparr>tx_status := FAILED\<rparr>"
    using p x ex k(3) by (auto simp: process_transaction_def Let_def split: if_splits)
  then show "tx_status t2 = FAILED" "tx_retryCount t2 = tx_retryCount t" "s2 = s0 @ [tx_id t]"
    using k by auto
qed

theorem retryTransaction_escalates_witness:
  "retryTransaction default_batch_config fail_then_mine [''a''] ((demo_tx ''a'')\<lparr>tx_status := FAILED\<rparr>)
     = ([''a'', ''a''], retried_tx)
   \<and> tx_gasPrice retried_tx = 5 \<and> tx_retryCount retried_tx = 1
   \<and> tx_status retried_tx = CONFIRMED
   \<and> scale_price (tx_gasPrice (demo_tx ''a'')) (to_double (gasPriceIncrement default_batch_config))
       = Some 5
   \<and> (1::real) \<le> gasPriceIncrement default_batch_config \<and> (0::int) < tx_gasPrice (demo_tx ''a'')
   \<and> tx_gasPrice (demo_tx ''a'') \<le> 2 ^ 53
   \<and> process_transaction default_batch_config fail_then_mine ([], zero_counts) exhausted_tx
       = (([''c''], zero_counts\<lparr>failedTxs := 1\<rparr>), exhausted_tx\<lparr>tx_status := FAILED\<rparr>)
   \<and> tx_retryCount exhausted_tx \<le> retryAttempts default_batch_config
   \<and> retryAttempts default_batch_config \<le> tx_retryCount exhausted_tx
   \<and> \<not> er_success (snd (snd (executeTransaction fail_then_mine [] exhausted_tx)))"
proof -
  have r: "retryTransaction default_batch_config fail_then_mine [''a'']
             ((demo_tx ''a'')\<lparr>tx_status := FAILED\<rparr>) = ([''a'', ''a''], retried_tx)"
    by (simp add: retryTransaction_def executeTransaction_def fail_then_mine_def demo_tx_def
        default_batch_config_def retried_tx_def demo_receipt_def double_eval)
  have sp: "scale_price (tx_gasPrice (demo_tx ''a''))
              (to_double (gasPriceIncrement default_batch_config)) = Some 5"
    by (simp add: demo_tx_def default_batch_config_def double_eval)
  have p: "process_transaction default_batch_config fail_then_mine ([], zero_counts) exhausted_tx
             = (([''c''], zero_counts\<lparr>failedTxs := 1\<rparr>), exhausted_tx\<lparr>tx_status := FAILED\<rparr>)"
    by (simp add: process_transaction_def executeTransaction_def fail_then_mine_def exhausted_tx_def
        demo_tx_def default_batch_config_def exec_failure_def zero_counts_def Let_def)
  have x: "\<not> er_success (snd (snd (executeTransaction fail_then_mine [] exhausted_tx)))"
    by (simp add: executeTransaction_def fail_then_mine_def exec_failure_def)
  from retryTransaction_escalates [where cfg = default_batch_config and world = fail_then_mine
      and sent = "[''a'']" and tx = "(demo_tx ''a'')\<lparr>tx_status := FAILED\<rparr>"
      and sent' = "[''a'', ''a'']" and tx' = retried_tx and ?s0.0 = "[]" and acc = zero_counts
      and t = exhausted_tx and ?s2.0 = "[''c'']" and ?acc2.0 = "zero_counts\<lparr>failedTxs := 1\<rparr>"
      and ?t2.0 = "exhausted_tx\<lparr>tx_status := FAILED\<rparr>"]
  show ?thesis
    using r p x sp
    by (simp add: retried_tx_def demo_tx_def exhausted_tx_def default_batch_config_def)
qed

text \<open>
  C6 as stated fails. A gas price of 5 wei with the default increment 1.1 is retried at 5
  wei, not at 5.5. A gas price of 511779999999999 wei is retried at 562957999999999 wei,
  one more than the exact product rounded down. And with an increment of 1 a gas price
  of \<open>2\<^sup>5\<^sup>3 + 1\<close> wei is retried at \<open>2\<^sup>5\<^sup>3\<close> wei, a lower price.
\<close>

theorem retryTransaction_floor_counterexample:
  "real_of_int (tx_gasPrice (snd (retryTransaction default_batch_config fail_then_mine [''a'']
       ((demo_tx ''a'')\<lparr>tx_status := FAILED\<rparr>))))
     \<noteq> real_of_int (tx_gasPrice ((demo_tx ''a'')\<lparr>tx_status := FAILED\<rparr>))
         * gasPriceIncrement default_batch_config
   \<and> tx_gasPrice (snd (retryTransaction default_batch_config always_mined []
         ((demo_tx ''a'')\<lparr>tx_gasPrice := 511779999999999\<rparr>))) = 562957999999999
   \<and> \<lfloor>real_of_int 511779999999999 * gasPriceIncrement default_batch_config\<rfloor>
       = 562957999999998
   \<and> gasPriceIncrement unit_increment_batch_config = 1
   \<and> tx_gasPrice (snd (retryTransaction unit_increment_batch_config always_mined []
         ((demo_tx ''a'')\<lparr>tx_gasPrice := 9007199254740993\<rparr>))) = 9007199254740992"
proof -
  have a: "real_of_int (tx_gasPrice (snd (retryTransaction default_batch_config fail_then_mine
       [''a''] ((demo_tx ''a'')\<lparr>tx_status := FAILED\<rparr>))))
     \<noteq> real_of_int (tx_gasPrice ((demo_tx ''a'')\<lparr>tx_status := FAILED\<rparr>))
         * gasPriceIncrement default_batch_config"
    by (simp add: retryTransaction_def executeTransaction_def fail_then_mine_def demo_tx_def
        default_batch_config_def demo_receipt_def double_eval)
  have b: "tx_gasPrice (snd (retryTransaction default_batch_config always_mined []
         ((demo_tx ''a'')\<lparr>tx_gasPrice := 511779999999999\<rparr>))) = 562957999999999"
    by (simp add: retryTransaction_def executeTransaction_def always_mined_def demo_tx_def
        default_batch_config_def demo_receipt_def double_eval)
  have c: "\<lfloor>real_of_int 511779999999999 * gasPriceIncrement default_batch_config\<rfloor>
       = 562957999999998"
    by (simp add: default_batch_config_def floor_eq_iff)
  have d: "gasPriceIncrement unit_increment_batch_config = 1"
    by (simp add: unit_increment_batch_config_def default_batch_config_def)
  have e: "tx_gasPrice (snd (retryTransaction unit_increment_batch_config always_mined []
         ((demo_tx ''a'')\<lparr>tx_gasPrice := 9007199254740993\<rparr>))) = 9007199254740992"
    by (simp add: retryTransaction_def executeTransaction_def always_mined_def demo_tx_def
        default_batch_config_def unit_increment_batch_config_def demo_receipt_def double_eval)
  show ?thesis
    using a b c d e by (intro conjI)
qed

subsection \<open>Final statuses\<close>

text \<open>
  C10. Whenever \<^verbatim>\<open>processBatch\<close> returns a result, the result's transactions are the
  validated ones and each has the status CONFIRMED or FAILED; and it does return (a
  result or the exception of the empty batch) when the two sizes are positive.
\<close>

theorem processBatch_statuses_terminal:
  "(processBatch cfg prov world sent txs = Some (Inr (sent', result)) \<longrightarrow>
      map tx_id (br_transactions result) = map tx_id (validateTransactions prov txs)
      \<and> (\<forall>t \<in> set (br_transactions result). tx_status t = CONFIRMED \<or> tx_status t = FAILED))
   \<and> (0 < maxBatchSize cfg \<and> 0 < parallelBatches cfg \<longrightarrow>
        (\<exists>out. processBatch cfg prov world sent txs = Some out))"
proof (intro conjI impI)
  assume a: "processBatch cfg prov world sent txs = Some (Inr (sent', result))"
  then obtain y where g: "group_loop cfg world (validateTransactions prov txs) 0 sent zero_counts = Some y"
    and r: "br_transactions result = fst (snd y)"
    by (auto simp: processBatch_def processTransactionsInBatches_def Let_def
        split: if_splits option.splits)
  from group_loop_settles [OF g] r
  show "map tx_id (br_transactions result) = map tx_id (validateTransactions prov txs)"
    and "\<forall>t \<in> set (br_transactions result). tx_status t = CONFIRMED \<or> tx_status t = FAILED"
    by (auto simp: settles_def terminal_def split: prod.splits)
next
  assume "0 < maxBatchSize cfg \<and> 0 < parallelBatches cfg"
  then obtain y where
    "group_loop cfg world (validateTransactions prov txs) 0 sent zero_counts = Some y"
    using group_loop_total by blast
  then show "\<exists>out. processBatch cfg prov world sent txs = Some out"
    by (auto simp: processBatch_def processTransactionsInBatches_def Let_def split: prod.splits)
qed

theorem processBatch_statuses_terminal_witness:
  "processBatch default_batch_config funded_provider fail_then_mine [] [demo_tx ''a'']
     = Some (Inr ([''a'', ''a''],
         \<lparr>br_transactions = [retried_tx], br_successfulTxs = 0, br_failedTxs = 1,
          br_totalGasUsed = 0, br_totalGasPrice = 0, br_success = False\<rparr>))
   \<and> tx_status retried_tx = CONFIRMED \<and> tx_id retried_tx = ''a''
   \<and> 0 < maxBatchSize default_batch_config \<and> 0 < parallelBatches default_batch_config"
  using processBatch_statuses_terminal [of default_batch_config funded_provider fail_then_mine
      "[]" "[demo_tx ''a'']" "[''a'', ''a'']"
      "\<lparr>br_transactions = [retried_tx], br_successfulTxs = 0, br_failedTxs = 1,
        br_totalGasUsed = 0, br_totalGasPrice = 0, br_success = False\<rparr>"]
    processBatch_demo
  by (simp add: retried_tx_def demo_tx_def default_batch_config_def)

section \<open>Properties of the queue\<close>

text \<open>The comparator orders the batches as the specification's order of priorities does.\<close>

lemma outranks_priorityOrder: "outranks p q \<longleftrightarrow> priorityOrder q < priorityOrder p"
  by (cases p; cases q) (simp_all add: outranks_def priorityOrder_def)

lemma priorityOrder_inj: "priorityOrder p = priorityOrder q \<longleftrightarrow> p = q"
  by (cases p; cases q) (simp_all add: priorityOrder_def)

lemma dispatched_before_priorityOrder:
  "dispatched_before a b \<longleftrightarrow>
     priorityOrder (bq_priority b) < priorityOrder (bq_priority a)
     \<or> (priorityOrder (bq_priority a) = priorityOrder (bq_priority b)
         \<and> bq_createdAt a \<le> bq_createdAt b)"
  by (simp add: dispatched_before_def outranks_priorityOrder priorityOrder_inj)

lemma compare_batches_le: "compare_batches a b \<le> 0 \<longleftrightarrow> dispatched_before a b"
  by (auto simp: compare_batches_def dispatched_before_priorityOrder Let_def)

lemma dispatched_before_total: "\<not> dispatched_before a b \<Longrightarrow> dispatched_before b a"
  by (auto simp: dispatched_before_priorityOrder)

lemma dispatched_before_trans:
  "dispatched_before a b \<Longrightarrow> dispatched_before b c \<Longrightarrow> dispatched_before a c"
  by (auto simp: dispatched_before_priorityOrder)

lemma set_insert_sorted: "set (insert_sorted cmp x ys) = insert x (set ys)"
  by (induction ys) auto

lemma mset_insert_sorted: "mset (insert_sorted cmp x ys) = add_mset x (mset ys)"
  by (induction ys) auto

lemma mset_js_sort: "mset (js_sort cmp xs) = mset xs"
  by (induction xs) (simp_all add: js_sort_def mset_insert_sorted)

lemma sorted_insert_sorted:
  "sorted_wrt dispatched_before ys \<Longrightarrow>
   sorted_wrt dispatched_before (insert_sorted compare_batches x ys)"
proof (induction ys)
  case Nil
  then show ?case by simp
next
  case (Cons y ys)
  show ?case
  proof (cases "compare_batches x y \<le> 0")
    case True
    then have xy: "dispatched_before x y" by (simp add: compare_batches_le)
    have "\<forall>z \<in> set ys. dispatched_before x z"
      using Cons.prems xy dispatched_before_trans by auto
    with True xy Cons.prems show ?thesis by simp
  next
    case False
    then have yx: "dispatched_before y x"
      using dispatched_before_total by (simp add: compare_batches_le)
    with False Cons show ?thesis
      by (auto simp: set_insert_sorted)
  qed
qed

lemma sorted_sortBatchQueue: "sorted_wrt dispatched_before (sortBatchQueue q)"
  unfolding sortBatchQueue_def js_sort_def
  by (induction q) (simp_all add: sorted_insert_sorted)

lemma three_queued_eq:
  "three_queued =
     \<lparr>batchQueue = [queued HIGH 1 2, queued MEDIUM 2 3, queued LOW 0 1],
      isProcessing = True, batchCounter = 3\<rparr>"
  by (simp add: three_queued_def queueBatch_def idle_state_def Let_def sortBatchQueue_def
      js_sort_def compare_batches_def priorityOrder_def queued_def default_batch_config_def)

text \<open>
  C7. A tick that takes a batch off the queue after its deadline leaves it with the status
  TIMEOUT, sends nothing, and does not put it back. A batch queued into the idle processor
  with a deadline one millisecond before the enqueue is timed out by the tick at that
  clock reading.
\<close>

theorem processBatchQueue_timeout:
  "(batchQueue st = batch # rest \<and> now > bq_timeout batch \<longrightarrow>
      processBatchQueue cfg prov world now st sent
        = Some (st\<lparr>batchQueue := rest\<rparr>, Some (batch\<lparr>bq_status := TIMEOUT\<rparr>), sent))
   \<and> (batchTimeout cfg = - 1 \<longrightarrow>
        (case queueBatch cfg idle_state transactions priority t t t of
           (st1, batchId) \<Rightarrow>
             \<exists>b. processBatchQueue cfg prov world t st1 sent
                   = Some (st1\<lparr>batchQueue := []\<rparr>, Some b, sent)
                 \<and> bq_status b = TIMEOUT \<and> bq_id b = batchId
                 \<and> bq_transactions b = transactions))"
  by (simp add: processBatchQueue_def queueBatch_def idle_state_def Let_def
      sortBatchQueue_def js_sort_def)

theorem processBatchQueue_timeout_witness:
  "batchQueue three_queued = queued HIGH 1 2 # [queued MEDIUM 2 3, queued LOW 0 1]
   \<and> (400000::int) > bq_timeout (queued HIGH 1 2)
   \<and> batchTimeout expired_batch_config = - 1
   \<and> processBatchQueue expired_batch_config funded_provider fail_then_mine 400000 three_queued []
       = Some (three_queued\<lparr>batchQueue := [queued MEDIUM 2 3, queued LOW 0 1]\<rparr>,
               Some ((queued HIGH 1 2)\<lparr>bq_status := TIMEOUT\<rparr>), [])
   \<and> (\<exists>b. processBatchQueue expired_batch_config funded_provider fail_then_mine 7
              (fst (queueBatch expired_batch_config idle_state [demo_tx ''a''] MEDIUM 7 7 7)) []
            = Some ((fst (queueBatch expired_batch_config idle_state [demo_tx ''a''] MEDIUM 7 7 7))
                      \<lparr>batchQueue := []\<rparr>, Some b, [])
          \<and> bq_status b = TIMEOUT \<and> bq_transactions b = [demo_tx ''a''])"
proof -
  have q: "batchQueue three_queued = queued HIGH 1 2 # [queued MEDIUM 2 3, queued LOW 0 1]"
    by (simp add: three_queued_eq)
  have d: "(400000::int) > bq_timeout (queued HIGH 1 2)"
    by (simp add: queued_def)
  have c: "batchTimeout expired_batch_config = - 1"
    by (simp add: expired_batch_config_def)
  from processBatchQueue_timeout [where st = three_queued and batch = "queued HIGH 1 2"
      and rest = "[queued MEDIUM 2 3, queued LOW 0 1]" and now = 400000
      and cfg = expired_batch_config and prov = funded_provider and world = fail_then_mine
      and sent = "[]" and transactions = "[demo_tx ''a'']" and priority = MEDIUM and t = 7]
  show ?thesis
    using q d c by (auto split: prod.splits)
qed

subsection \<open>Ticks of the dispatcher\<close>

lemma tick_takes_head:
  assumes "processBatchQueue cfg prov world now s sent = Some (s', d, sent')"
    and "batchQueue s = batch # rest"
  shows "batchQueue s' = rest" and "\<exists>status. d = Some (batch\<lparr>bq_status := status\<rparr>)"
  using assms
  by (auto simp: processBatchQueue_def split: if_splits option.splits sum.splits)

lemma tick_dispatches_head:
  assumes "processBatchQueue cfg prov world now s sent = Some (s', d, sent')"
    and "batchQueue s = batch # rest" and "now \<le> bq_timeout batch"
  shows "(\<exists>status. d = Some (batch\<lparr>bq_status := status\<rparr>)
            \<and> (status = COMPLETED \<or> status = BATCH_FAILED))
         \<and> (\<exists>ex. sent' = sent @ ex
               \<and> set ex = tx_id ` {t \<in> set (bq_transactions batch). passes_validation prov t})"
proof (cases "processBatch cfg prov world sent (bq_transactions batch)")
  case None
  then show ?thesis
    using assms by (simp add: processBatchQueue_def)
next
  case (Some out)
  show ?thesis
  proof (cases out)
    case (Inl e)
    then have "validateTransactions prov (bq_transactions batch) = []"
      using Some by (auto simp: processBatch_def Let_def split: if_splits option.splits)
    then have "filter (passes_validation prov) (bq_transactions batch) = []"
      by (simp add: validateTransactions_filter)
    then have "tx_id ` {t \<in> set (bq_transactions batch). passes_validation prov t} = {}"
      by (auto simp: filter_empty_conv)
    then show ?thesis
      using assms Some Inl by (auto simp: processBatchQueue_def)
  next
    case (Inr r)
    obtain s1 result where r: "r = (s1, result)" by (cases r) auto
    from processBatch_sends [OF Some [unfolded Inr r]] obtain ex where
      "s1 = sent @ ex"
      "set ex = tx_id ` {t \<in> set (bq_transactions batch). passes_validation prov t}"
      by blast
    then show ?thesis
      using assms Some Inr r by (auto simp: processBatchQueue_def)
  qed
qed

lemma tick_returns:
  assumes "0 < maxBatchSize cfg" and "0 < parallelBatches cfg"
  shows "\<exists>out. processBatchQueue cfg prov world now s sent = Some out"
proof (cases "batchQueue s")
  case Nil
  then show ?thesis by (simp add: processBatchQueue_def)
next
  case (Cons batch rest)
  have "\<exists>out. processBatch cfg prov world sent (bq_transactions batch) = Some out"
  proof (cases "filter (passes_validation prov) (bq_transactions batch) = []")
    case True
    then show ?thesis by (simp add: processBatch_none_valid)
  next
    case False
    then show ?thesis
      using processBatch_effect [OF assms, of prov "bq_transactions batch" world sent] by auto
  qed
  then obtain out where "processBatch cfg prov world sent (bq_transactions batch) = Some out"
    by blast
  then show ?thesis
    using Cons by (auto simp: processBatchQueue_def split: sum.splits)
qed

lemma run_ticks_cons:
  assumes "run_ticks cfg prov world (n # ns) s sent = Some (s', batches, sent')"
    and "batchQueue s = batch # rest"
  shows "\<exists>s1 sent1 status bs.
           batchQueue s1 = rest
           \<and> run_ticks cfg prov world ns s1 sent1 = Some (s', bs, sent')
           \<and> batches = batch\<lparr>bq_status := status\<rparr> # bs"
proof -
  from assms(1) obtain s1 taken sent1 bs where
    t: "processBatchQueue cfg prov world n s sent = Some (s1, taken, sent1)"
    and r: "run_ticks cfg prov world ns s1 sent1 = Some (s', bs, sent')"
    and b: "batches = (case taken of None \<Rightarrow> [] | Some b \<Rightarrow> [b]) @ bs"
    by (auto split: option.splits prod.splits)
  from tick_takes_head [OF t assms(2)] obtain status where
    "batchQueue s1 = rest" "taken = Some (batch\<lparr>bq_status := status\<rparr>)"
    by blast
  with r b show ?thesis by auto
qed

lemma run_ticks_three:
  assumes "run_ticks cfg prov world [n1, n2, n3] s sent = Some (s', batches, sent')"
    and "batchQueue s = [b1, b2, b3]"
  shows "map bq_priority batches = [bq_priority b1, bq_priority b2, bq_priority b3]
         \<and> map bq_transactions batches
             = [bq_transactions b1, bq_transactions b2, bq_transactions b3]"
proof -
  from run_ticks_cons [OF assms] obtain s1 sent1 st1 bs1 where
    q1: "batchQueue s1 = [b2, b3]"
    and r1: "run_ticks cfg prov world [n2, n3] s1 sent1 = Some (s', bs1, sent')"
    and e1: "batches = b1\<lparr>bq_status := st1\<rparr> # bs1"
    by blast
  from run_ticks_cons [OF r1 q1] obtain s2 sent2 st2 bs2 where
    q2: "batchQueue s2 = [b3]"
    and r2: "run_ticks cfg prov world [n3] s2 sent2 = Some (s', bs2, sent')"
    and e2: "bs1 = b2\<lparr>bq_status := st2\<rparr> # bs2"
    by blast
  from run_ticks_cons [OF r2 q2] obtain s3 sent3 st3 bs3 where
    r3: "run_ticks cfg prov world [] s3 sent3 = Some (s', bs3, sent')"
    and e3: "bs2 = b3\<lparr>bq_status := st3\<rparr> # bs3"
    by blast
  from r3 have "bs3 = []" by simp
  with e1 e2 e3 show ?thesis by simp
qed

subsection \<open>Three batches of one transaction each\<close>

lemma validate_one: "validateTransactions funded_provider [demo_tx name] = [demo_tx name]"
  by (simp add: validate_transaction_def funded_provider_def demo_tx_def or_zero_def Let_def)

lemma batch_one:
  "processTransactionBatch default_batch_config always_mined sent [demo_tx name]
     = (sent @ [name], [confirmed_tx name],
        zero_counts\<lparr>successfulTxs := 1, totalGasUsed := 21000, totalGasPrice := 5\<rparr>)"
  by (simp add: processTransactionBatch_def process_transaction_def executeTransaction_def
      always_mined_def demo_tx_def confirmed_tx_def demo_receipt_def zero_counts_def or_zero_def)

lemma processBatch_one:
  "processBatch default_batch_config funded_provider always_mined sent [demo_tx name]
     = Some (Inr (sent @ [name],
         \<lparr>br_transactions = [confirmed_tx name], br_successfulTxs = 1, br_failedTxs = 0,
          br_totalGasUsed = 21000, br_totalGasPrice = 5, br_success = True\<rparr>))"
proof -
  let ?c = default_batch_config
  let ?v = "zero_counts\<lparr>successfulTxs := 1, totalGasUsed := 21000, totalGasPrice := 5\<rparr>"
  have sl: "slice [demo_tx name] 0 (maxBatchSize ?c * parallelBatches ?c) = [demo_tx name]"
    "slice [demo_tx name] 0 (maxBatchSize ?c) = [demo_tx name]"
    by (simp_all add: slice_def default_batch_config_def)
  have d2: "dispatch_batches ?c always_mined [demo_tx name] (0 + maxBatchSize ?c) (sent @ [name])
              = Some (sent @ [name], [], [])"
    by (rule dispatch_batches_done) (simp add: default_batch_config_def)
  have d1: "dispatch_batches ?c always_mined [demo_tx name] 0 sent
              = Some (sent @ [name], [confirmed_tx name] @ [], [Fulfilled ?v])"
    by (rule dispatch_batches_step [OF _ _ d2]) (simp_all add: sl batch_one)
  have g2: "group_loop ?c always_mined [demo_tx name] (0 + maxBatchSize ?c * parallelBatches ?c)
              (sent @ [name]) (accumulate_results (maxBatchSize ?c) zero_counts [Fulfilled ?v])
              = Some (sent @ [name], [],
                  accumulate_results (maxBatchSize ?c) zero_counts [Fulfilled ?v])"
    by (rule group_loop_done) (simp add: default_batch_config_def)
  have g1: "group_loop ?c always_mined [demo_tx name] 0 sent zero_counts
              = Some (sent @ [name], ([confirmed_tx name] @ []) @ [],
                  accumulate_results (maxBatchSize ?c) zero_counts [Fulfilled ?v])"
    by (rule group_loop_step [OF _ _ g2]) (simp_all add: sl d1)
  show ?thesis
    unfolding processBatch_def validate_one Let_def processTransactionsInBatches_def g1
    by (simp add: zero_counts_def default_batch_config_def)
qed

lemma three_loaded_eq:
  "three_loaded =
     \<lparr>batchQueue = [loaded ''h'' HIGH 1 2, loaded ''m'' MEDIUM 2 3, loaded ''l'' LOW 0 1],
      isProcessing = True, batchCounter = 3\<rparr>"
  by (simp add: three_loaded_def queueBatch_def idle_state_def Let_def sortBatchQueue_def
      js_sort_def compare_batches_def priorityOrder_def loaded_def default_batch_config_def)

lemma tick_loaded:
  "now \<le> t + 300000 \<Longrightarrow>
   processBatchQueue default_batch_config funded_provider always_mined now
       \<lparr>batchQueue = loaded name p t n # rest, isProcessing = True, batchCounter = c\<rparr> sent
     = Some (\<lparr>batchQueue = rest, isProcessing = True, batchCounter = c + 1\<rparr>,
             Some ((loaded name p t n)\<lparr>bq_status := COMPLETED\<rparr>), sent @ [name])"
  by (simp add: processBatchQueue_def loaded_def processBatch_one)

lemma run_three_loaded:
  "run_ticks default_batch_config funded_provider always_mined [3, 4, 5] three_loaded []
     = Some (three_loaded\<lparr>batchQueue := [], batchCounter := 6\<rparr>,
             [(loaded ''h'' HIGH 1 2)\<lparr>bq_status := COMPLETED\<rparr>,
              (loaded ''m'' MEDIUM 2 3)\<lparr>bq_status := COMPLETED\<rparr>,
              (loaded ''l'' LOW 0 1)\<lparr>bq_status := COMPLETED\<rparr>],
             [''h'', ''m'', ''l''])"
  by (simp add: three_loaded_eq tick_loaded)

text \<open>
  C8. After an enqueue the queue holds the batches it held and the new one, ordered by
  priority descending (CRITICAL > HIGH > MEDIUM > LOW) and, among equal priorities, by
  \<^verbatim>\<open>createdAt\<close> ascending. Batches queued into the idle processor with the priorities LOW,
  HIGH and MEDIUM stand in the order HIGH, MEDIUM, LOW, and a CRITICAL batch queued after
  them stands first. A tick that finds a batch at the head of the queue, not after its
  deadline, and returns takes that batch off the queue, leaves it COMPLETED or FAILED,
  and sends exactly its valid transactions; with positive sizes a tick returns. So three
  ticks that return take the three batches in the order HIGH, MEDIUM, LOW.
\<close>

theorem queueBatch_sorted:
  "sorted_wrt dispatched_before (batchQueue (fst (queueBatch cfg st txs priority t1 t2 t3)))
   \<and> mset (batchQueue (fst (queueBatch cfg st txs priority t1 t2 t3)))
       = add_mset \<lparr>bq_id = (t1, batchCounter st + 1), bq_transactions = txs,
                   bq_priority = priority, bq_createdAt = t3,
                   bq_timeout = t2 + batchTimeout cfg, bq_status = QUEUED\<rparr>
           (mset (batchQueue st))
   \<and> map bq_priority (batchQueue (fst (queueBatch cfg
        (fst (queueBatch cfg (fst (queueBatch cfg idle_state xs LOW a1 a2 a3)) ys HIGH b1 b2 b3))
        zs MEDIUM c1 c2 c3))) = [HIGH, MEDIUM, LOW]
   \<and> map bq_priority (batchQueue (fst (queueBatch cfg (fst (queueBatch cfg
        (fst (queueBatch cfg (fst (queueBatch cfg idle_state xs LOW a1 a2 a3)) ys HIGH b1 b2 b3))
        zs MEDIUM c1 c2 c3)) ws CRITICAL e1 e2 e3))) = [CRITICAL, HIGH, MEDIUM, LOW]
   \<and> (batchQueue s = batch # rest \<and> now \<le> bq_timeout batch
        \<and> processBatchQueue cfg prov world now s sent = Some (s', d, sent')
      \<longrightarrow> batchQueue s' = rest
          \<and> (\<exists>status. d = Some (batch\<lparr>bq_status := status\<rparr>)
                \<and> (status = COMPLETED \<or> status = BATCH_FAILED))
          \<and> (\<exists>ex. sent' = sent @ ex
                \<and> set ex = tx_id ` {t \<in> set (bq_transactions batch). passes_validation prov t}))
   \<and> (0 < maxBatchSize cfg \<and> 0 < parallelBatches cfg
      \<longrightarrow> (\<exists>out. processBatchQueue cfg prov world now s sent = Some out))
   \<and> (run_ticks cfg prov world [n1, n2, n3]
          (fst (queueBatch cfg
             (fst (queueBatch cfg (fst (queueBatch cfg idle_state xs LOW a1 a2 a3))
                ys HIGH b1 b2 b3))
             zs MEDIUM c1 c2 c3)) sent0 = Some (sr, batches, sentr)
      \<longrightarrow> map bq_priority batches = [HIGH, MEDIUM, LOW]
          \<and> map bq_transactions batches = [ys, zs, xs])"
proof (intro conjI impI)
  show "sorted_wrt dispatched_before (batchQueue (fst (queueBatch cfg st txs priority t1 t2 t3)))"
    by (simp add: queueBatch_def Let_def sorted_sortBatchQueue)
  show "mset (batchQueue (fst (queueBatch cfg st txs priority t1 t2 t3)))
       = add_mset \<lparr>bq_id = (t1, batchCounter st + 1), bq_transactions = txs,
                   bq_priority = priority, bq_createdAt = t3,
                   bq_timeout = t2 + batchTimeout cfg, bq_status = QUEUED\<rparr>
           (mset (batchQueue st))"
    by (simp add: queueBatch_def Let_def sortBatchQueue_def mset_js_sort)
  show "map bq_priority (batchQueue (fst (queueBatch cfg
        (fst (queueBatch cfg (fst (queueBatch cfg idle_state xs LOW a1 a2 a3)) ys HIGH b1 b2 b3))
        zs MEDIUM c1 c2 c3))) = [HIGH, MEDIUM, LOW]"
    by (simp add: queueBatch_def idle_state_def Let_def sortBatchQueue_def js_sort_def
        compare_batches_def priorityOrder_def)
  show "map bq_priority (batchQueue (fst (queueBatch cfg (fst (queueBatch cfg
        (fst (queueBatch cfg (fst (queueBatch cfg idle_state xs LOW a1 a2 a3)) ys HIGH b1 b2 b3))
        zs MEDIUM c1 c2 c3)) ws CRITICAL e1 e2 e3))) = [CRITICAL, HIGH, MEDIUM, LOW]"
    by (simp add: queueBatch_def idle_state_def Let_def sortBatchQueue_def js_sort_def
        compare_batches_def priorityOrder_def)
  show "\<exists>out. processBatchQueue cfg prov world now s sent = Some out"
    if "0 < maxBatchSize cfg \<and> 0 < parallelBatches cfg"
    using that tick_returns by blast
next
  assume a: "batchQueue s = batch # rest \<and> now \<le> bq_timeout batch
        \<and> processBatchQueue cfg prov world now s sent = Some (s', d, sent')"
  then have t: "processBatchQueue cfg prov world now s sent = Some (s', d, sent')"
    and q: "batchQueue s = batch # rest" and n: "now \<le> bq_timeout batch"
    by simp_all
  show "batchQueue s' = rest"
    by (rule tick_takes_head(1) [OF t q])
  show "\<exists>status. d = Some (batch\<lparr>bq_status := status\<rparr>)
                \<and> (status = COMPLETED \<or> status = BATCH_FAILED)"
    using tick_dispatches_head [OF t q n] by blast
  show "\<exists>ex. sent' = sent @ ex
                \<and> set ex = tx_id ` {t \<in> set (bq_transactions batch). passes_validation prov t}"
    using tick_dispatches_head [OF t q n] by blast
next
  let ?s = "fst (queueBatch cfg
             (fst (queueBatch cfg (fst (queueBatch cfg idle_state xs LOW a1 a2 a3))
                ys HIGH b1 b2 b3))
             zs MEDIUM c1 c2 c3)"
  assume r: "run_ticks cfg prov world [n1, n2, n3] ?s sent0 = Some (sr, batches, sentr)"
  have q: "batchQueue ?s =
     [\<lparr>bq_id = (b1, 2), bq_transactions = ys, bq_priority = HIGH, bq_createdAt = b3,
        bq_timeout = b2 + batchTimeout cfg, bq_status = QUEUED\<rparr>,
      \<lparr>bq_id = (c1, 3), bq_transactions = zs, bq_priority = MEDIUM, bq_createdAt = c3,
        bq_timeout = c2 + batchTimeout cfg, bq_status = QUEUED\<rparr>,
      \<lparr>bq_id = (a1, 1), bq_transactions = xs, bq_priority = LOW, bq_createdAt = a3,
        bq_timeout = a2 + batchTimeout cfg, bq_status = QUEUED\<rparr>]"
    by (simp add: queueBatch_def idle_state_def Let_def sortBatchQueue_def js_sort_def
        compare_batches_def priorityOrder_def)
  from run_ticks_three [OF r q]
  show "map bq_priority batches = [HIGH, MEDIUM, LOW]"
    and "map bq_transactions batches = [ys, zs, xs]"
    by simp_all
qed

theorem queueBatch_sorted_witness:
  "map bq_priority (batchQueue three_loaded) = [HIGH, MEDIUM, LOW]
   \<and> batchQueue three_loaded
       = loaded ''h'' HIGH 1 2 # [loaded ''m'' MEDIUM 2 3, loaded ''l'' LOW 0 1]
   \<and> (3::int) \<le> bq_timeout (loaded ''h'' HIGH 1 2)
   \<and> processBatchQueue default_batch_config funded_provider always_mined 3 three_loaded []
       = Some (three_loaded\<lparr>batchQueue := [loaded ''m'' MEDIUM 2 3, loaded ''l'' LOW 0 1],
                            batchCounter := 4\<rparr>,
               Some ((loaded ''h'' HIGH 1 2)\<lparr>bq_status := COMPLETED\<rparr>), [''h''])
   \<and> passes_validation funded_provider (demo_tx ''h'')
   \<and> 0 < maxBatchSize default_batch_config \<and> 0 < parallelBatches default_batch_config
   \<and> run_ticks default_batch_config funded_provider always_mined [3, 4, 5] three_loaded []
       = Some (three_loaded\<lparr>batchQueue := [], batchCounter := 6\<rparr>,
               [(loaded ''h'' HIGH 1 2)\<lparr>bq_status := COMPLETED\<rparr>,
                (loaded ''m'' MEDIUM 2 3)\<lparr>bq_status := COMPLETED\<rparr>,
                (loaded ''l'' LOW 0 1)\<lparr>bq_status := COMPLETED\<rparr>],
               [''h'', ''m'', ''l''])
   \<and> map bq_transactions [(loaded ''h'' HIGH 1 2)\<lparr>bq_status := COMPLETED\<rparr>,
                (loaded ''m'' MEDIUM 2 3)\<lparr>bq_status := COMPLETED\<rparr>,
                (loaded ''l'' LOW 0 1)\<lparr>bq_status := COMPLETED\<rparr>]
       = [[demo_tx ''h''], [demo_tx ''m''], [demo_tx ''l'']]"
proof -
  have q: "batchQueue three_loaded
             = loaded ''h'' HIGH 1 2 # [loaded ''m'' MEDIUM 2 3, loaded ''l'' LOW 0 1]"
    by (simp add: three_loaded_eq)
  have n: "(3::int) \<le> bq_timeout (loaded ''h'' HIGH 1 2)"
    by (simp add: loaded_def)
  have p: "processBatchQueue default_batch_config funded_provider always_mined 3 three_loaded []
       = Some (three_loaded\<lparr>batchQueue := [loaded ''m'' MEDIUM 2 3, loaded ''l'' LOW 0 1],
                            batchCounter := 4\<rparr>,
               Some ((loaded ''h'' HIGH 1 2)\<lparr>bq_status := COMPLETED\<rparr>), [''h''])"
    by (simp add: three_loaded_eq tick_loaded)
  have v: "passes_validation funded_provider (demo_tx ''h'')"
    by (simp add: passes_validation_def fails_validation_def provider_reads_succeed_def
        demo_tx_def funded_provider_def or_zero_def)
  have h: "0 < maxBatchSize default_batch_config" "0 < parallelBatches default_batch_config"
    by (simp_all add: default_batch_config_def)
  note r = run_three_loaded
  from queueBatch_sorted [where cfg = default_batch_config and prov = funded_provider
      and world = always_mined and now = 3 and s = three_loaded and sent = "[]"
      and s' = "three_loaded\<lparr>batchQueue := [loaded ''m'' MEDIUM 2 3, loaded ''l'' LOW 0 1],
                             batchCounter := 4\<rparr>"
      and d = "Some ((loaded ''h'' HIGH 1 2)\<lparr>bq_status := COMPLETED\<rparr>)" and sent' = "[''h'']"
      and batch = "loaded ''h'' HIGH 1 2"
      and rest = "[loaded ''m'' MEDIUM 2 3, loaded ''l'' LOW 0 1]"
      and xs = "[demo_tx ''l'']" and ys = "[demo_tx ''h'']" and zs = "[demo_tx ''m'']"
      and ?a1.0 = 0 and ?a2.0 = 0 and ?a3.0 = 0 and ?b1.0 = 1 and ?b2.0 = 1 and ?b3.0 = 1
      and ?c1.0 = 2 and ?c2.0 = 2 and ?c3.0 = 2
      and ?n1.0 = 3 and ?n2.0 = 4 and ?n3.0 = 5 and ?sent0.0 = "[]"
      and sr = "three_loaded\<lparr>batchQueue := [], batchCounter := 6\<rparr>"
      and batches = "[(loaded ''h'' HIGH 1 2)\<lparr>bq_status := COMPLETED\<rparr>,
                (loaded ''m'' MEDIUM 2 3)\<lparr>bq_status := COMPLETED\<rparr>,
                (loaded ''l'' LOW 0 1)\<lparr>bq_status := COMPLETED\<rparr>]"
      and sentr = "[''h'', ''m'', ''l'']"]
  have t: "map bq_priority (batchQueue three_loaded) = [HIGH, MEDIUM, LOW]"
    and u: "map bq_transactions [(loaded ''h'' HIGH 1 2)\<lparr>bq_status := COMPLETED\<rparr>,
                (loaded ''m'' MEDIUM 2 3)\<lparr>bq_status := COMPLETED\<rparr>,
                (loaded ''l'' LOW 0 1)\<lparr>bq_status := COMPLETED\<rparr>]
       = [[demo_tx ''h''], [demo_tx ''m''], [demo_tx ''l'']]"
    using r by (simp_all add: three_loaded_def)
  show ?thesis
    using t q n p v h r u by (intro conjI)
qed

section \<open>Properties of the bundle execution\<close>

lemma executeLaunchTransaction_success:
  "er_success (fst (executeLaunchTransaction env b)) = launch_confirmed (launch_outcome env)"
  by (simp add: executeLaunchTransaction_def launch_confirmed_def exec_failure_def Let_def
      split: send_outcome.splits)

lemma executeLaunchTransaction_events:
  "snd (executeLaunchTransaction env b) = [LaunchSend (protect env (lb_launchTx b))]"
  by (simp add: executeLaunchTransaction_def Let_def)

lemma buy_loop_done:
  "\<not> i < length (lb_buyTxs b) \<Longrightarrow> buy_loop env b i acc = acc"
  by (subst buy_loop.simps) simp

lemma buy_loop_step:
  "i < length (lb_buyTxs b) \<Longrightarrow>
   buy_loop env b i acc =
     buy_loop env b (i + 10)
       (fold (buy_callback env (slice (lb_wallets b) i (i + 10)) i)
          (zip (slice (lb_buyTxs b) i (i + 10)) [0..<length (slice (lb_buyTxs b) i (i + 10))]) acc)"
  by (subst buy_loop.simps) (simp add: Let_def)

lemma failed_launch:
  "executeLaunchBundle (env_with SendThrows) [''b1'' \<mapsto> demo_bundle] ''b1''
     = ([''b1'' \<mapsto> demo_bundle\<lparr>lb_status := BUNDLE_FAILED\<rparr>],
        createFailedResult ''Launch transaction failed'',
        [StatusSet LAUNCHING, LaunchSend demo_request, StatusSet BUNDLE_FAILED])"
  by (simp add: executeLaunchBundle_def executeLaunchTransaction_def env_with_def exec_failure_def
      demo_bundle_def Let_def)

lemma buys_demo:
  "executeBuyTransactions (env_with (Mined demo_receipt))
      (demo_bundle\<lparr>lb_status := BUYING, lb_launchTxHash := Some ''0xH'', lb_blockNumber := Some 100\<rparr>)
    = \<lparr>ba_successfulBuys = 1, ba_failedBuys = 0, ba_totalGasUsed = 21000, ba_totalGasPrice = 5,
       ba_totalProfit = 1 / 1000, ba_txHashes = [''0xH''], ba_events = [BuySend 0 demo_request]\<rparr>"
  unfolding executeBuyTransactions_def
  apply (subst buy_loop_step)
   apply (simp add: demo_bundle_def)
  apply (subst buy_loop_done)
   apply (simp add: demo_bundle_def)
  apply (simp add: demo_bundle_def slice_def buy_callback_def env_with_def zero_buys_def
      demo_wallet_def demo_receipt_def Let_def)
  done

lemma confirmed_launch:
  "executeLaunchBundle (env_with (Mined demo_receipt)) [''b1'' \<mapsto> demo_bundle] ''b1''
     = ([''b1'' \<mapsto> demo_bundle\<lparr>lb_status := BUNDLE_COMPLETED, lb_launchTxHash := Some ''0xH'',
                                   lb_blockNumber := Some 100\<rparr>],
        \<lparr>res_success = True, res_launchSuccess = True, res_buySuccess = True,
         res_totalBuys = 1, res_successfulBuys = 1, res_failedBuys = 0,
         res_totalGasUsed = 42000, res_totalGasPrice = 10, res_totalProfit = 1 / 1000,
         res_error = None, res_launchTxHash = Some ''0xH'', res_buyTxHashes = [''0xH''],
         res_blockNumber = Some 100\<rparr>,
        [StatusSet LAUNCHING, LaunchSend demo_request, StatusSet BUYING,
         BuySend 0 demo_request, StatusSet BUNDLE_COMPLETED])"
proof -
  have l: "executeLaunchTransaction (env_with (Mined demo_receipt))
             (demo_bundle\<lparr>lb_status := LAUNCHING\<rparr>)
           = (\<lparr>er_success = True, er_txHash = Some ''0xH'', er_blockNumber = Some 100,
               er_gasUsed = Some 21000, er_gasPrice = Some 5\<rparr>, [LaunchSend demo_request])"
    by (simp add: executeLaunchTransaction_def env_with_def demo_receipt_def demo_bundle_def)
  show ?thesis
    unfolding executeLaunchBundle_def
    by (simp add: l buys_demo Let_def or_zero_def) (simp add: demo_bundle_def)
qed

text \<open>
  C2. For a bundle that is found: if the launch is not confirmed, the execution sets
  LAUNCHING, sends the launch, sets FAILED and does nothing else, so no buy is sent; the
  status BUYING is set only in an execution whose launch is confirmed, and then after the
  launch was sent; and a buy is sent only in an execution whose launch is confirmed.
\<close>

theorem executeLaunchBundle_buying_after_confirmation:
  assumes "activeBundles bundleId = Some bundle"
    and "executeLaunchBundle env activeBundles bundleId = (bundles', result, events)"
  shows "(\<not> launch_confirmed (launch_outcome env) \<longrightarrow>
            events = [StatusSet LAUNCHING, LaunchSend (protect env (lb_launchTx bundle)),
                      StatusSet BUNDLE_FAILED]
            \<and> map_option lb_status (bundles' bundleId) = Some BUNDLE_FAILED
            \<and> res_successfulBuys result = 0 \<and> res_failedBuys result = 0
            \<and> \<not> res_success result)
         \<and> (StatusSet BUYING \<in> set events \<longrightarrow>
              launch_confirmed (launch_outcome env)
              \<and> (\<exists>rest. events = StatusSet LAUNCHING
                            # LaunchSend (protect env (lb_launchTx bundle))
                            # StatusSet BUYING # rest))
         \<and> (BuySend k tx \<in> set events \<longrightarrow> launch_confirmed (launch_outcome env))"
proof -
  obtain lr le where l: "executeLaunchTransaction env (bundle\<lparr>lb_status := LAUNCHING\<rparr>) = (lr, le)"
    by (metis surj_pair)
  have s: "er_success lr = launch_confirmed (launch_outcome env)"
    using executeLaunchTransaction_success [of env "bundle\<lparr>lb_status := LAUNCHING\<rparr>"] l by simp
  have e: "le = [LaunchSend (protect env (lb_launchTx bundle))]"
    using executeLaunchTransaction_events [of env "bundle\<lparr>lb_status := LAUNCHING\<rparr>"] l by simp
  show ?thesis
  proof (cases "launch_confirmed (launch_outcome env)")
    case False
    then have "events = [StatusSet LAUNCHING, LaunchSend (protect env (lb_launchTx bundle)),
                      StatusSet BUNDLE_FAILED]"
      and "bundles' = activeBundles(bundleId \<mapsto> bundle\<lparr>lb_status := BUNDLE_FAILED\<rparr>)"
      and "result = createFailedResult ''Launch transaction failed''"
      using assms l s e by (auto simp: executeLaunchBundle_def)
    with False show ?thesis by (simp add: createFailedResult_def)
  next
    case True
    then have "\<exists>rest. events = StatusSet LAUNCHING # LaunchSend (protect env (lb_launchTx bundle))
                            # StatusSet BUYING # rest"
      using assms l s e by (auto simp: executeLaunchBundle_def Let_def)
    with True show ?thesis by simp
  qed
qed

theorem executeLaunchBundle_buying_after_confirmation_witness:
  "[''b1'' \<mapsto> demo_bundle] ''b1'' = Some demo_bundle
   \<and> \<not> launch_confirmed (launch_outcome (env_with SendThrows))
   \<and> snd (snd (executeLaunchBundle (env_with SendThrows) [''b1'' \<mapsto> demo_bundle] ''b1''))
       = [StatusSet LAUNCHING, LaunchSend demo_request, StatusSet BUNDLE_FAILED]
   \<and> launch_confirmed (launch_outcome (env_with (Mined demo_receipt)))
   \<and> snd (snd (executeLaunchBundle (env_with (Mined demo_receipt))
                  [''b1'' \<mapsto> demo_bundle] ''b1''))
       = [StatusSet LAUNCHING, LaunchSend demo_request, StatusSet BUYING,
          BuySend 0 demo_request, StatusSet BUNDLE_COMPLETED]"
proof -
  have m: "[''b1'' \<mapsto> demo_bundle] ''b1'' = Some demo_bundle"
    by simp
  have n: "\<not> launch_confirmed (launch_outcome (env_with SendThrows))"
    by (simp add: launch_confirmed_def env_with_def)
  have c: "launch_confirmed (launch_outcome (env_with (Mined demo_receipt)))"
    by (simp add: launch_confirmed_def env_with_def demo_receipt_def)
  from executeLaunchBundle_buying_after_confirmation [OF m failed_launch]
    executeLaunchBundle_buying_after_confirmation [OF m confirmed_launch, of 0 demo_request]
  show ?thesis
    using m n c failed_launch confirmed_launch by simp
qed

end
